theory Spec2Isabelle
  imports Complex_Main "HOL-Library.Multiset"
begin

section \<open>SpellQuest-AR: the gesture-driven spelling game\<close>

text \<open>
  The repository holds two versions of the game screen \<^verbatim>\<open>SpellingAdventure\<close>: the
  richer one (cursor smoothing, grab confirmation, duplicate letters injected for the
  target word) and the simpler one in \<^verbatim>\<open>src/components/SpellingAdventure.tsx\<close> (raw
  cursor, fixed 26-letter pool, periodic scramble). Both share the drag controller, the
  settle animation and the word evaluator, which are modelled once.

  JavaScript numbers that hold coordinates are modelled as real numbers, so rounding of
  IEEE doubles is abstracted; counters and indices are natural numbers, the score and the
  remaining seconds are integers. The refs of the component (\<^verbatim>\<open>tiles\<close>,
  \<^verbatim>\<open>activeTileId\<close>, ...) and the React state it reads are the fields of one state
  record that every operation takes and returns. The frame callback is a closure of
  the render that installed it: what it reads of the React state is modelled in the
  section on rounds and events. Drawing on the canvas and the particles of the
  celebration are cosmetic and are left out.
\<close>

subsection \<open>Constants\<close>

definition PINCH_GRAB_THRESHOLD :: real where "PINCH_GRAB_THRESHOLD = 0.065"
definition PINCH_RELEASE_THRESHOLD :: real where "PINCH_RELEASE_THRESHOLD = 0.1"
definition TRAY_Y :: real where "TRAY_Y = 220"
definition HAND_SMOOTH :: real where "HAND_SMOOTH = 0.45"
definition GRAB_CONFIRM_FRAMES :: nat where "GRAB_CONFIRM_FRAMES = 2"
definition TILE_SIZE :: real where "TILE_SIZE = 60"
definition POOL_SPACING :: real where "POOL_SPACING = 1.3"

text \<open>The simpler screen has tighter thresholds and no smoothing.\<close>

definition PINCH_GRAB_THRESHOLD_simple :: real where "PINCH_GRAB_THRESHOLD_simple = 0.05"
definition PINCH_RELEASE_THRESHOLD_simple :: real where "PINCH_RELEASE_THRESHOLD_simple = 0.08"

datatype TileColor = red | blue | green | yellow | purple | orange | cyan | pink

definition TILE_COLORS :: "TileColor list" where
  "TILE_COLORS = [red, blue, green, yellow, purple, orange, cyan, pink]"

datatype Difficulty = EASY | MEDIUM | HARD

text \<open>\<^verbatim>\<open>DIFFICULTY_SETTINGS\<close>: the round time in seconds and the score multiplier.\<close>

fun difficulty_time :: "Difficulty \<Rightarrow> int" where
  "difficulty_time EASY = 45"
| "difficulty_time MEDIUM = 30"
| "difficulty_time HARD = 20"

fun multiplier :: "Difficulty \<Rightarrow> real" where
  "multiplier EASY = 1"
| "multiplier MEDIUM = 1.5"
| "multiplier HARD = 2"

subsection \<open>Data model\<close>

text \<open>
  \<^verbatim>\<open>Point\<close> and \<^verbatim>\<open>LetterTile\<close> of \<^verbatim>\<open>types.ts\<close>. Field names are global
  here, so \<^verbatim>\<open>x\<close> and \<^verbatim>\<open>y\<close> of a point are \<open>pt_x\<close> and \<open>pt_y\<close>, and
  \<^verbatim>\<open>id\<close>, \<^verbatim>\<open>char\<close>, \<^verbatim>\<open>x\<close>, \<^verbatim>\<open>y\<close> of a tile are \<open>tile_id\<close>,
  \<open>tile_char\<close>, \<open>tile_x\<close>, \<open>tile_y\<close>. The optional \<^verbatim>\<open>trayIndex\<close> is
  \<open>None\<close> when undefined; it is only ever assigned array positions, hence a natural
  number.
\<close>

record Point =
  pt_x :: real
  pt_y :: real

record LetterTile =
  tile_id :: string
  tile_char :: string
  tile_x :: real
  tile_y :: real
  targetX :: real
  targetY :: real
  color :: TileColor
  isDragging :: bool
  inTray :: bool
  trayIndex :: "nat option"

datatype Sound = Success | Failure | Tick | Click

text \<open>
  The two fingertips the game reads from a hand: \<^verbatim>\<open>landmarks[8]\<close> and
  \<^verbatim>\<open>landmarks[4]\<close>, in the normalised coordinates of the tracker.
\<close>

record Hand =
  idxTip :: Point
  thumbTip :: Point

text \<open>
  The state of one mounted game screen. \<open>sounds\<close> is the log of the calls of
  \<^verbatim>\<open>playSound\<close>, oldest first; \<open>timerRunning\<close> says that
  \<^verbatim>\<open>timerIntervalRef\<close> holds an interval, \<open>scrambleRunning\<close> the same for
  \<^verbatim>\<open>scrambleIntervalRef\<close> of the simpler screen.

  \<^verbatim>\<open>onResults\<close> is installed by an effect whose dependencies are
  \<^verbatim>\<open>initPool\<close>, \<^verbatim>\<open>currentWord\<close>, \<^verbatim>\<open>isCorrect\<close> and \<^verbatim>\<open>playSound\<close>. It
  calls the \<^verbatim>\<open>updateTrayWord\<close> of the render that installed it, so the
  \<^verbatim>\<open>timeLeft\<close> and \<^verbatim>\<open>difficulty\<close> that this function reads are the values of
  that render: \<open>closureTimeLeft\<close> and \<open>closureDifficulty\<close>. The fields
  \<open>timeLeft\<close> and \<open>difficulty\<close> are the current React state, which the countdown
  and the settings change without installing the callback again.
\<close>

record GameState =
  tiles :: "LetterTile list"
  activeTileId :: "string option"
  smoothHandPos :: Point
  pinchFrames :: nat
  pinchConfirmed :: bool
  currentWord :: string
  trayWord :: string
  isCorrect :: bool
  score :: int
  wordsCompleted :: nat
  timeLeft :: int
  difficulty :: Difficulty
  closureTimeLeft :: int
  closureDifficulty :: Difficulty
  timerRunning :: bool
  scrambleRunning :: bool
  canvasWidth :: real
  canvasHeight :: real
  sounds :: "Sound list"

subsection \<open>Helpers for JavaScript idioms\<close>

text \<open>\<^verbatim>\<open>Array.prototype.find\<close>, returning the position of the first match.\<close>

fun findIndex :: "('a \<Rightarrow> bool) \<Rightarrow> 'a list \<Rightarrow> nat option" where
  "findIndex P [] = None"
| "findIndex P (t # ts) = (if P t then Some 0 else map_option Suc (findIndex P ts))"

text \<open>
  \<^verbatim>\<open>activeTileId.current\<close> used as a condition: \<^verbatim>\<open>null\<close> and the empty
  string are falsy.
\<close>

fun truthy :: "string option \<Rightarrow> bool" where
  "truthy None = False"
| "truthy (Some a) = (a \<noteq> [])"

text \<open>\<^verbatim>\<open>t.trayIndex || 0\<close>, the sort key of the tray.\<close>

definition trayKey :: "LetterTile \<Rightarrow> nat" where
  "trayKey t = (case trayIndex t of None \<Rightarrow> 0 | Some k \<Rightarrow> k)"

subsection \<open>Word evaluator\<close>

text \<open>
  The tray is a derived view: the tiles with \<^verbatim>\<open>inTray\<close>, sorted by
  \<^verbatim>\<open>trayIndex || 0\<close>. \<^verbatim>\<open>Array.prototype.sort\<close> is stable, as is
  \<open>sort_key\<close>. On a match \<^verbatim>\<open>updateTrayWord\<close> stops the countdown, and on
  the simpler screen the scramble interval as well. The function is reached from
  \<^verbatim>\<open>onResults\<close> only, so its \<^verbatim>\<open>timeLeft\<close> and \<^verbatim>\<open>difficulty\<close> are those of
  the closure; \<^verbatim>\<open>currentWord\<close> is a dependency of the effect and always current.
\<close>

definition trayTilesSorted :: "LetterTile list \<Rightarrow> LetterTile list" where
  "trayTilesSorted ts = sort_key trayKey (filter inTray ts)"

definition trayWordOf :: "LetterTile list \<Rightarrow> string" where
  "trayWordOf ts = concat (map tile_char (trayTilesSorted ts))"

definition scoreDelta :: "Difficulty \<Rightarrow> string \<Rightarrow> int \<Rightarrow> int" where
  "scoreDelta d word t =
     \<lfloor>real (length word) * 10 * multiplier d\<rfloor> + \<lfloor>real_of_int t * multiplier d\<rfloor>"

definition updateTrayWord :: "GameState \<Rightarrow> GameState" where
  "updateTrayWord s =
     (let word = trayWordOf (tiles s);
          s1 = s\<lparr>trayWord := word\<rparr>
      in if word = currentWord s \<and> length word > 0
         then s1\<lparr>sounds := sounds s1 @ [Success],
                 isCorrect := True,
                 score := score s1 + scoreDelta (closureDifficulty s1) word (closureTimeLeft s1),
                 timerRunning := False,
                 scrambleRunning := False\<rparr>
         else s1\<lparr>isCorrect := False\<rparr>)"

text \<open>
  The number shown after \<^verbatim>\<open>Perfect! +\<close> while the round is solved. It is part
  of the rendered output, so it is computed from the current state.
\<close>

definition perfectMessagePoints :: "GameState \<Rightarrow> int" where
  "perfectMessagePoints s =
     \<lfloor>real (length (currentWord s)) * 10 * multiplier (difficulty s)\<rfloor>
       + \<lfloor>real_of_int (timeLeft s) * multiplier (difficulty s)\<rfloor>"

subsection \<open>Drag controller\<close>

text \<open>
  The square hit box around the current position of a tile. Where it is used the cursor
  is not null, so \<^verbatim>\<open>handPos?.x || 0\<close> is the coordinate itself.
\<close>

definition hitTest :: "Point \<Rightarrow> LetterTile \<Rightarrow> bool" where
  "hitTest handPos t \<longleftrightarrow>
     \<bar>tile_x t - pt_x handPos\<bar> < TILE_SIZE / 2 \<and> \<bar>tile_y t - pt_y handPos\<bar> < TILE_SIZE / 2"

text \<open>
  The body of \<^verbatim>\<open>if (handPos && isPinching && !isCorrect)\<close>: with no active tile the
  first tile under the cursor is grabbed; with one, that tile follows the cursor.
\<close>

definition grabOrMove :: "Point \<Rightarrow> GameState \<Rightarrow> GameState" where
  "grabOrMove handPos s =
     (if \<not> truthy (activeTileId s) then
        (case findIndex (hitTest handPos) (tiles s) of
           None \<Rightarrow> s
         | Some i \<Rightarrow>
             s\<lparr>activeTileId := Some (tile_id (tiles s ! i)),
               tiles := (tiles s)[i := (tiles s ! i)\<lparr>isDragging := True\<rparr>],
               sounds := sounds s @ [Click]\<rparr>)
      else
        (case findIndex (\<lambda>t. Some (tile_id t) = activeTileId s) (tiles s) of
           None \<Rightarrow> s
         | Some i \<Rightarrow>
             s\<lparr>tiles := (tiles s)[i := (tiles s ! i)\<lparr>tile_x := pt_x handPos,
                                                    tile_y := pt_y handPos\<rparr>]\<rparr>))"

text \<open>
  The \<^verbatim>\<open>forEach\<close> over \<^verbatim>\<open>trayTiles.concat(tile)\<close>: the tile at position
  \<open>j\<close> of the pool, the \<open>k\<close>-th of the tray, gets slot \<open>k\<close>.
\<close>

definition placeInSlot :: "real \<Rightarrow> nat \<Rightarrow> LetterTile \<Rightarrow> LetterTile" where
  "placeInSlot startX k t =
     t\<lparr>trayIndex := Some k,
       targetX := startX + real k * TILE_SIZE * 1.1 - (TILE_SIZE * 1.1) / 2,
       targetY := TRAY_Y\<rparr>"

fun placeAll :: "real \<Rightarrow> nat \<Rightarrow> nat list \<Rightarrow> LetterTile list \<Rightarrow> LetterTile list" where
  "placeAll startX k [] ts = ts"
| "placeAll startX k (j # js) ts = placeAll startX (Suc k) js (ts[j := placeInSlot startX k (ts ! j)])"

text \<open>
  The release of the tile at position \<open>i\<close> of the pool. Tiles are objects shared
  between \<^verbatim>\<open>tiles.current\<close> and \<^verbatim>\<open>trayTiles\<close>, so the tray is kept as the list
  of their positions in the pool.
\<close>

definition dropTile :: "nat \<Rightarrow> GameState \<Rightarrow> GameState" where
  "dropTile i s =
     (let ts = tiles s;
          tile = (ts ! i)\<lparr>isDragging := False\<rparr>
      in if \<bar>tile_y tile - TRAY_Y\<bar> < 100 then
           (let click = (if \<not> inTray tile then [Click] else []);
                tile1 = tile\<lparr>inTray := True\<rparr>;
                ts1 = ts[i := tile1];
                trayTiles = sort_key (\<lambda>j. trayKey (ts1 ! j))
                              (filter (\<lambda>j. inTray (ts1 ! j) \<and> tile_id (ts1 ! j) \<noteq> tile_id tile1)
                                 [0..<length ts1]);
                ts2 = ts1[i := tile1\<lparr>trayIndex := Some (length trayTiles),
                                    targetY := TRAY_Y\<rparr>];
                totalWidth = (real (length trayTiles) + 1) * TILE_SIZE * 1.1;
                startX = (canvasWidth s - totalWidth) / 2 + (TILE_SIZE * 1.1) / 2
            in s\<lparr>tiles := placeAll startX 0 (trayTiles @ [i]) ts2,
                 sounds := sounds s @ click\<rparr>)
         else s\<lparr>tiles := ts[i := tile\<lparr>inTray := False, trayIndex := None\<rparr>]\<rparr>)"

text \<open>The body of \<^verbatim>\<open>else if (activeTileId.current)\<close>.\<close>

definition releaseActive :: "GameState \<Rightarrow> GameState" where
  "releaseActive s =
     (let s1 = (case findIndex (\<lambda>t. Some (tile_id t) = activeTileId s) (tiles s) of
                  None \<Rightarrow> s
                | Some i \<Rightarrow> dropTile i s)
      in updateTrayWord (s1\<lparr>activeTileId := None\<rparr>))"

definition dragController :: "Point option \<Rightarrow> bool \<Rightarrow> GameState \<Rightarrow> GameState" where
  "dragController handPos isPinching s =
     (if handPos \<noteq> None \<and> isPinching \<and> \<not> isCorrect s then grabOrMove (the handPos) s
      else if truthy (activeTileId s) then releaseActive s
      else s)"

subsection \<open>Settle animator\<close>

definition settleTile :: "LetterTile \<Rightarrow> LetterTile" where
  "settleTile t =
     (if \<not> isDragging t
      then t\<lparr>tile_x := tile_x t + (targetX t - tile_x t) * 0.15,
             tile_y := tile_y t + (targetY t - tile_y t) * 0.15\<rparr>
      else t)"

definition settle :: "GameState \<Rightarrow> GameState" where
  "settle s = s\<lparr>tiles := map settleTile (tiles s)\<rparr>"

subsection \<open>Cursor, smoothing filter and pinch classifier\<close>

text \<open>
  The raw cursor is the midpoint of the two fingertips in canvas coordinates, with the
  horizontal axis mirrored.
\<close>

definition rawCursor :: "real \<Rightarrow> real \<Rightarrow> Hand \<Rightarrow> Point" where
  "rawCursor w h hand =
     (let idxTipX = 1 - pt_x (idxTip hand);
          thumbTipX = 1 - pt_x (thumbTip hand)
      in \<lparr>pt_x = (idxTipX * w + thumbTipX * w) / 2,
          pt_y = (pt_y (idxTip hand) * h + pt_y (thumbTip hand) * h) / 2\<rparr>)"

definition pinchDistance :: "Hand \<Rightarrow> real" where
  "pinchDistance hand =
     (let dx = (1 - pt_x (idxTip hand)) - (1 - pt_x (thumbTip hand));
          dy = pt_y (idxTip hand) - pt_y (thumbTip hand)
      in sqrt (dx * dx + dy * dy))"

text \<open>The exponential moving average applied to \<^verbatim>\<open>smoothHandPos\<close> in place.\<close>

definition smoothStep :: "Point \<Rightarrow> Point \<Rightarrow> Point" where
  "smoothStep prev raw =
     \<lparr>pt_x = pt_x prev + (pt_x raw - pt_x prev) * HAND_SMOOTH,
      pt_y = pt_y prev + (pt_y raw - pt_y prev) * HAND_SMOOTH\<rparr>"

text \<open>Hysteresis: the threshold depends on whether a tile is active.\<close>

definition rawPinch :: "Hand \<Rightarrow> GameState \<Rightarrow> bool" where
  "rawPinch hand s \<longleftrightarrow>
     pinchDistance hand <
       (if truthy (activeTileId s) then PINCH_RELEASE_THRESHOLD else PINCH_GRAB_THRESHOLD)"

text \<open>
  The first part of a frame of the richer screen: with a hand, the cursor is smoothed;
  with none, the \<^verbatim>\<open>else\<close> branch resets the confirmation state and nothing else.
  Returns \<^verbatim>\<open>handPos\<close>, \<^verbatim>\<open>rawPinching\<close> and the state.
\<close>

definition trackHand :: "Hand option \<Rightarrow> GameState \<Rightarrow> Point option \<times> bool \<times> GameState" where
  "trackHand results s =
     (case results of
        Some hand \<Rightarrow>
          (let sm = smoothStep (smoothHandPos s) (rawCursor (canvasWidth s) (canvasHeight s) hand)
           in (Some sm, rawPinch hand s, s\<lparr>smoothHandPos := sm\<rparr>))
      | None \<Rightarrow> (None, False, s\<lparr>pinchFrames := 0, pinchConfirmed := False\<rparr>))"

text \<open>Grab confirmation: consecutive pinch frames are counted, saturating.\<close>

definition grabConfirm :: "bool \<Rightarrow> GameState \<Rightarrow> GameState" where
  "grabConfirm rawPinching s =
     (if rawPinching then
        (let n = min (pinchFrames s + 1) (GRAB_CONFIRM_FRAMES + 1)
         in s\<lparr>pinchFrames := n,
              pinchConfirmed := (if n \<ge> GRAB_CONFIRM_FRAMES then True else pinchConfirmed s)\<rparr>)
      else
        s\<lparr>pinchFrames := 0,
          pinchConfirmed := (if \<not> truthy (activeTileId s) then False else pinchConfirmed s)\<rparr>)"

definition effectivePinch :: "bool \<Rightarrow> GameState \<Rightarrow> bool" where
  "effectivePinch rawPinching s \<longleftrightarrow>
     rawPinching \<and> (pinchConfirmed s \<or> truthy (activeTileId s))"

subsection \<open>The per-frame step\<close>

text \<open>\<^verbatim>\<open>onResults\<close> of the richer screen.\<close>

definition onResults :: "Hand option \<Rightarrow> GameState \<Rightarrow> GameState" where
  "onResults results s =
     (case trackHand results s of
        (handPos, rawPinching, s1) \<Rightarrow>
          (let s2 = grabConfirm rawPinching s1;
               isPinching = effectivePinch rawPinching s2
           in settle (dragController handPos isPinching s2)))"

text \<open>
  \<^verbatim>\<open>onResults\<close> of the simpler screen: the cursor is the raw midpoint and the pinch
  is the thresholded distance, with no confirmation.
\<close>

definition isPinchingSimple :: "Hand \<Rightarrow> GameState \<Rightarrow> bool" where
  "isPinchingSimple hand s \<longleftrightarrow>
     (if truthy (activeTileId s) then pinchDistance hand < PINCH_RELEASE_THRESHOLD_simple
      else pinchDistance hand < PINCH_GRAB_THRESHOLD_simple)"

definition onResultsSimple :: "Hand option \<Rightarrow> GameState \<Rightarrow> GameState" where
  "onResultsSimple results s =
     (case results of
        Some hand \<Rightarrow>
          settle (dragController (Some (rawCursor (canvasWidth s) (canvasHeight s) hand))
                    (isPinchingSimple hand s) s)
      | None \<Rightarrow> settle (dragController None False s))"

subsection \<open>Building the letter pool\<close>

text \<open>
  \<^verbatim>\<open>shuffleArray\<close> is the Fisher--Yates loop, \<open>i\<close> running from the last index
  down to 1. Each \<^verbatim>\<open>Math.floor(Math.random() * (i + 1))\<close> is some index in
  \<open>0..i\<close>; the draws are a parameter \<open>rnd\<close>, reduced into that range.
\<close>

fun shuffleLoop :: "(nat \<Rightarrow> nat) \<Rightarrow> nat \<Rightarrow> 'a list \<Rightarrow> 'a list" where
  "shuffleLoop rnd 0 shuffled = shuffled"
| "shuffleLoop rnd (Suc k) shuffled =
     (let i = Suc k;
          j = rnd i mod (i + 1)
      in shuffleLoop rnd k (shuffled[i := shuffled ! j, j := shuffled ! i]))"

definition shuffleArray :: "(nat \<Rightarrow> nat) \<Rightarrow> 'a list \<Rightarrow> 'a list" where
  "shuffleArray rnd array = shuffleLoop rnd (length array - 1) array"

text \<open>\<^verbatim>\<open>"ABCDEFGHIJKLMNOPQRSTUVWXYZ".split("")\<close>: one string per letter.\<close>

definition alphabet :: "string list" where
  "alphabet = map (\<lambda>c. [c]) ''ABCDEFGHIJKLMNOPQRSTUVWXYZ''"

text \<open>
  \<^verbatim>\<open>toUpperCase\<close> on the ASCII letters; strings here are byte strings, so other
  scripts are outside the model.
\<close>

definition toUpperCaseChar :: "char \<Rightarrow> char" where
  "toUpperCaseChar c =
     (let n = (of_char c :: nat) in if 97 \<le> n \<and> n \<le> 122 then char_of (n - 32) else c)"

definition toUpperCase :: "string \<Rightarrow> string" where
  "toUpperCase w = map toUpperCaseChar w"

text \<open>Decimal digits of a number, as the template literal of the tile id prints them.\<close>

fun showNat :: "nat \<Rightarrow> string" where
  "showNat n =
     (if n < 10 then [char_of (48 + n)]
      else showNat (n div 10) @ [char_of (48 + n mod 10)])"

declare showNat.simps [simp del]

definition tileId :: "string \<Rightarrow> nat \<Rightarrow> string" where
  "tileId ch charIdx = ''tile-'' @ ch @ ''-'' @ showNat charIdx"

definition newTile :: "string \<Rightarrow> nat \<Rightarrow> real \<Rightarrow> real \<Rightarrow> LetterTile" where
  "newTile ch charIdx x y =
     \<lparr>tile_id = tileId ch charIdx, tile_char = ch, tile_x = x, tile_y = y,
      targetX = x, targetY = y,
      color = TILE_COLORS ! (charIdx mod length TILE_COLORS),
      isDragging = False, inTray = False, trayIndex = None\<rparr>"

text \<open>The position of column \<open>col\<close> in a centred row of \<open>colsInRow\<close> tiles.\<close>

definition poolX :: "real \<Rightarrow> nat \<Rightarrow> nat \<Rightarrow> real" where
  "poolX width colsInRow col =
     (let rowWidth = real colsInRow * TILE_SIZE * POOL_SPACING;
          rowStartX = (width - rowWidth) / 2 + (TILE_SIZE * POOL_SPACING) / 2
      in rowStartX + real col * TILE_SIZE * POOL_SPACING - (TILE_SIZE * POOL_SPACING) / 2)"

definition poolY :: "real \<Rightarrow> nat \<Rightarrow> real" where
  "poolY poolStartY rowIndex = poolStartY + real rowIndex * TILE_SIZE * POOL_SPACING"

text \<open>
  \<^verbatim>\<open>rows.forEach\<close> with the running \<^verbatim>\<open>charIdx\<close>: a row pushes one tile per
  column until the letters run out (the \<^verbatim>\<open>break\<close>).
\<close>

fun layoutRows :: "string list \<Rightarrow> real \<Rightarrow> real \<Rightarrow> nat list \<Rightarrow> nat \<Rightarrow> nat \<Rightarrow> LetterTile list" where
  "layoutRows letters width poolStartY [] rowIndex charIdx = []"
| "layoutRows letters width poolStartY (colsInRow # rows) rowIndex charIdx =
     (let n = min colsInRow (length letters - charIdx)
      in map (\<lambda>col. newTile (letters ! (charIdx + col)) (charIdx + col)
                       (poolX width colsInRow col) (poolY poolStartY rowIndex)) [0..<n]
         @ layoutRows letters width poolStartY rows (Suc rowIndex) (charIdx + n))"

text \<open>The simpler screen: the shuffled alphabet in rows of 9, 9 and 8.\<close>

definition initPoolSimple :: "(nat \<Rightarrow> nat) \<Rightarrow> real \<Rightarrow> real \<Rightarrow> LetterTile list" where
  "initPoolSimple rnd width height =
     (let shuffledLetters = shuffleArray rnd alphabet;
          rows = [9, 9, 8];
          poolHeight = real (length rows) * TILE_SIZE * POOL_SPACING;
          poolStartY = height - poolHeight - 40
      in layoutRows shuffledLetters width poolStartY rows 0 0)"

text \<open>
  The richer screen counts the letters of the upper-cased word, in order of first
  occurrence, and adds the copies beyond the first. \<^verbatim>\<open>Object.entries\<close> lists keys
  that are array indices (here the digits) first, in ascending order, then the others
  in insertion order.
\<close>

fun countLetter :: "char \<Rightarrow> (char \<times> nat) list \<Rightarrow> (char \<times> nat) list" where
  "countLetter ch [] = [(ch, 1)]"
| "countLetter ch ((c, n) # m) = (if c = ch then (c, n + 1) # m else (c, n) # countLetter ch m)"

definition wordLetterCounts :: "string \<Rightarrow> (char \<times> nat) list" where
  "wordLetterCounts word = fold countLetter (toUpperCase word) []"

definition isDigit :: "char \<Rightarrow> bool" where
  "isDigit c \<longleftrightarrow> 48 \<le> (of_char c :: nat) \<and> (of_char c :: nat) \<le> 57"

definition objectEntries :: "(char \<times> nat) list \<Rightarrow> (char \<times> nat) list" where
  "objectEntries m =
     sort_key (\<lambda>(c, n). (of_char c :: nat)) (filter (\<lambda>(c, n). isDigit c) m)
     @ filter (\<lambda>(c, n). \<not> isDigit c) m"

definition extraLetters :: "string \<Rightarrow> string list" where
  "extraLetters word =
     concat (map (\<lambda>(ch, count). replicate (count - 1) [ch]) (objectEntries (wordLetterCounts word)))"

text \<open>The \<^verbatim>\<open>while (remaining > 0)\<close> loop that cuts the letters into rows of 9.\<close>

fun poolRows :: "nat \<Rightarrow> nat list" where
  "poolRows remaining =
     (if remaining > 0 then min 9 remaining # poolRows (remaining - 9) else [])"

declare poolRows.simps [simp del]

definition initPool :: "(nat \<Rightarrow> nat) \<Rightarrow> real \<Rightarrow> real \<Rightarrow> string \<Rightarrow> LetterTile list" where
  "initPool rnd width height word =
     (let allLetters = shuffleArray rnd (alphabet @ extraLetters word);
          rows = poolRows (length allLetters);
          poolHeight = real (length rows) * TILE_SIZE * POOL_SPACING;
          poolStartY = height - poolHeight - 40
      in layoutRows allLetters width poolStartY rows 0 0)"

text \<open>
  \<^verbatim>\<open>scramblePool\<close> of the simpler screen: the tiles outside the tray are shuffled
  and given the pool positions again; the tray tiles follow them in the array.
\<close>

fun retargetRows :: "LetterTile list \<Rightarrow> real \<Rightarrow> real \<Rightarrow> nat list \<Rightarrow> nat \<Rightarrow> nat \<Rightarrow> LetterTile list" where
  "retargetRows ts width poolStartY [] rowIndex charIdx = ts"
| "retargetRows ts width poolStartY (colsInRow # rows) rowIndex charIdx =
     (let n = min colsInRow (length ts - charIdx);
          ts' = fold (\<lambda>col ts. ts[charIdx + col :=
                         (ts ! (charIdx + col))\<lparr>targetX := poolX width colsInRow col,
                                                targetY := poolY poolStartY rowIndex\<rparr>])
                  [0..<n] ts
      in retargetRows ts' width poolStartY rows (Suc rowIndex) (charIdx + n))"

declare retargetRows.simps [simp del]

definition scramblePool :: "(nat \<Rightarrow> nat) \<Rightarrow> GameState \<Rightarrow> GameState" where
  "scramblePool rnd s =
     (let poolTiles = filter (\<lambda>t. \<not> inTray t) (tiles s);
          trayTiles = filter inTray (tiles s);
          shuffledPool = shuffleArray rnd poolTiles;
          rows = [9, 9, 8];
          poolHeight = real (length rows) * TILE_SIZE * POOL_SPACING;
          poolStartY = canvasHeight s - poolHeight - 40
      in s\<lparr>tiles := retargetRows shuffledPool (canvasWidth s) poolStartY rows 0 0 @ trayTiles\<rparr>)"

subsection \<open>Rounds, timers and the events of a session\<close>

text \<open>The values of \<^verbatim>\<open>useRef\<close> and \<^verbatim>\<open>useState\<close> at mount; a canvas starts 300 by 150.\<close>

definition initialState :: GameState where
  "initialState =
     \<lparr>tiles = [], activeTileId = None, smoothHandPos = \<lparr>pt_x = 0, pt_y = 0\<rparr>,
      pinchFrames = 0, pinchConfirmed = False, currentWord = [], trayWord = [],
      isCorrect = False, score = 0, wordsCompleted = 0, timeLeft = 30, difficulty = MEDIUM,
      closureTimeLeft = 30, closureDifficulty = MEDIUM,
      timerRunning = False, scrambleRunning = False, canvasWidth = 300, canvasHeight = 150,
      sounds = []\<rparr>"

definition startTimer :: "GameState \<Rightarrow> GameState" where
  "startTimer s = s\<lparr>timeLeft := difficulty_time (difficulty s), timerRunning := True\<rparr>"

text \<open>
  The interval callback of \<^verbatim>\<open>startTimer\<close>. At zero it stops the interval and
  schedules \<^verbatim>\<open>nextWord\<close>, which arrives as an event of its own.
\<close>

definition timerTick :: "GameState \<Rightarrow> GameState" where
  "timerTick s =
     (if \<not> timerRunning s then s
      else
        (let prev = timeLeft s;
             s1 = (if prev \<le> 5 \<and> prev > 0 then s\<lparr>sounds := sounds s @ [Tick]\<rparr> else s)
         in if prev \<le> 1
            then s1\<lparr>timerRunning := False, sounds := sounds s1 @ [Failure], timeLeft := 0\<rparr>
            else s1\<lparr>timeLeft := prev - 1\<rparr>))"



text \<open>
  \<^verbatim>\<open>nextWord\<close>: the word drawn at random from
  \<^verbatim>\<open>WORD_CATEGORIES[category][difficulty]\<close> is a parameter, as are the draws of
  the shuffle.
\<close>

definition nextWord :: "string \<Rightarrow> (nat \<Rightarrow> nat) \<Rightarrow> GameState \<Rightarrow> GameState" where
  "nextWord nextWordText rnd s =
     startTimer
       (s\<lparr>currentWord := nextWordText, trayWord := [], isCorrect := False,
          wordsCompleted := wordsCompleted s + 1,
          tiles := initPool rnd (canvasWidth s) (canvasHeight s) nextWordText\<rparr>)"

definition nextWordSimple :: "string \<Rightarrow> (nat \<Rightarrow> nat) \<Rightarrow> GameState \<Rightarrow> GameState" where
  "nextWordSimple nextWordText rnd s =
     (startTimer
        (s\<lparr>currentWord := nextWordText, trayWord := [], isCorrect := False,
           wordsCompleted := wordsCompleted s + 1,
           tiles := initPoolSimple rnd (canvasWidth s) (canvasHeight s)\<rparr>))
     \<lparr>scrambleRunning := True\<rparr>"

definition resize :: "real \<Rightarrow> real \<Rightarrow> (nat \<Rightarrow> nat) \<Rightarrow> GameState \<Rightarrow> GameState" where
  "resize w h rnd s =
     (let s1 = s\<lparr>canvasWidth := w, canvasHeight := h\<rparr>
      in if length (tiles s1) = 0 then s1\<lparr>tiles := initPool rnd w h (currentWord s1)\<rparr> else s1)"

definition resizeSimple :: "real \<Rightarrow> real \<Rightarrow> (nat \<Rightarrow> nat) \<Rightarrow> GameState \<Rightarrow> GameState" where
  "resizeSimple w h rnd s =
     (let s1 = s\<lparr>canvasWidth := w, canvasHeight := h\<rparr>
      in if length (tiles s1) = 0 then s1\<lparr>tiles := initPoolSimple rnd w h\<rparr> else s1)"

text \<open>
  What can happen to a mounted screen: a tracking frame, a new round (the button, the
  expired timer, the first mount), a changed difficulty (which starts a new round), a
  restart, a timer tick, a resize, the sound switch, and on the simpler screen the
  scramble interval (the richer screen has none, so there the event changes nothing).
\<close>

datatype Event =
    Frame "Hand option"
  | NextWord string "nat \<Rightarrow> nat"
  | SetDifficulty Difficulty string "nat \<Rightarrow> nat"
  | ResetGame string "nat \<Rightarrow> nat"
  | TimerTick
  | Resize real real "nat \<Rightarrow> nat"
  | Scramble "nat \<Rightarrow> nat"
  | ToggleSound

text \<open>The state updates that the handler of an event makes.\<close>

fun handle :: "Event \<Rightarrow> GameState \<Rightarrow> GameState" where
  "handle (Frame results) s = onResults results s"
| "handle (NextWord w rnd) s = nextWord w rnd s"
| "handle (SetDifficulty d w rnd) s = nextWord w rnd (s\<lparr>difficulty := d\<rparr>)"
| "handle (ResetGame w rnd) s = nextWord w rnd (s\<lparr>score := 0, wordsCompleted := 0\<rparr>)"
| "handle TimerTick s = timerTick s"
| "handle (Resize w h rnd) s = resize w h rnd s"
| "handle (Scramble rnd) s = s"
| "handle ToggleSound s = s"

fun handleSimple :: "Event \<Rightarrow> GameState \<Rightarrow> GameState" where
  "handleSimple (Frame results) s = onResultsSimple results s"
| "handleSimple (NextWord w rnd) s = nextWordSimple w rnd s"
| "handleSimple (SetDifficulty d w rnd) s = nextWordSimple w rnd (s\<lparr>difficulty := d\<rparr>)"
| "handleSimple (ResetGame w rnd) s = nextWordSimple w rnd (s\<lparr>score := 0, wordsCompleted := 0\<rparr>)"
| "handleSimple TimerTick s = timerTick s"
| "handleSimple (Resize w h rnd) s = resizeSimple w h rnd s"
| "handleSimple (Scramble rnd) s =
     (if scrambleRunning s \<and> \<not> isCorrect s then scramblePool rnd s else s)"
| "handleSimple ToggleSound s = s"

text \<open>
  The updates of one handler are rendered together. After the render the effect that
  installs \<^verbatim>\<open>onResults\<close> runs again when \<^verbatim>\<open>currentWord\<close> or
  \<^verbatim>\<open>isCorrect\<close> has changed, or \<^verbatim>\<open>playSound\<close> (which changes with the sound
  switch); the new callback is a closure of that render. A timer tick or a frame that
  solves nothing leaves the installed callback, and what it has captured, in place.
\<close>

definition installEffect :: "GameState \<Rightarrow> GameState" where
  "installEffect s = s\<lparr>closureTimeLeft := timeLeft s, closureDifficulty := difficulty s\<rparr>"

fun changesPlaySound :: "Event \<Rightarrow> bool" where
  "changesPlaySound ToggleSound = True"
| "changesPlaySound e = False"

definition render :: "Event \<Rightarrow> GameState \<Rightarrow> GameState \<Rightarrow> GameState" where
  "render e before after =
     (if changesPlaySound e \<or> currentWord after \<noteq> currentWord before
         \<or> isCorrect after \<noteq> isCorrect before
      then installEffect after else after)"

definition step :: "Event \<Rightarrow> GameState \<Rightarrow> GameState" where
  "step e s = render e s (handle e s)"

definition stepSimple :: "Event \<Rightarrow> GameState \<Rightarrow> GameState" where
  "stepSimple e s = render e s (handleSimple e s)"

text \<open>The state after a sequence of events, from the mounted screen.\<close>

definition run :: "Event list \<Rightarrow> GameState" where
  "run evs = fold step evs initialState"

definition runSimple :: "Event list \<Rightarrow> GameState" where
  "runSimple evs = fold stepSimple evs initialState"

subsection \<open>The advisory service: \<^verbatim>\<open>getSpellingFeedback\<close>\<close>

text \<open>
  The function is \<^verbatim>\<open>async\<close>: its result is \<open>Inr\<close> of the response when the promise
  resolves and \<open>Inl\<close> of the thrown value when it rejects. Values thrown by the client
  library and by \<^verbatim>\<open>JSON.parse\<close> are \<^verbatim>\<open>Error\<close> objects, of which only the message
  is read.
\<close>

datatype JsError = Error (message: string)

text \<open>\<^verbatim>\<open>SpellingFeedback\<close>, its fields prefixed with \<open>fb_\<close>.\<close>

record SpellingFeedback =
  fb_word :: string
  fb_isValid :: bool
  fb_definition :: "string option"
  fb_sentence :: "string option"
  fb_suggestion :: "string option"
  fb_emoji :: "string option"

text \<open>
  The \<^verbatim>\<open>feedback\<close> field is either whatever \<^verbatim>\<open>JSON.parse\<close> returned (a value of
  a type \<open>'j\<close> left open) or one of the two object literals of the handlers.
\<close>

datatype 'j Feedback = Parsed 'j | Literal SpellingFeedback

record 'j DebugInfo =
  latency :: int
  screenshotBase64 :: "string option"
  promptContext :: string
  rawResponse :: string
  parsedResponse :: "'j option"
  error :: "string option"
  timestamp :: string

record 'j AiResponse =
  feedback :: "'j Feedback"
  debug :: "'j DebugInfo"

text \<open>
  What the function takes from its environment: the clock, the remote call (from the
  letters in the tray, the letters of the pool and the image data to a rejection or the
  \<^verbatim>\<open>text\<close> of the response, which may be undefined) and \<^verbatim>\<open>JSON.parse\<close>.
\<close>

record 'j World =
  startTime :: real
  endTime :: real
  timeString :: string
  generateContent :: "string \<Rightarrow> string list \<Rightarrow> string \<Rightarrow> JsError + string option"
  jsonParse :: "string \<Rightarrow> JsError + 'j"

text \<open>\<^verbatim>\<open>Array.prototype.join\<close>.\<close>

fun join :: "string \<Rightarrow> string list \<Rightarrow> string" where
  "join sep [] = []"
| "join sep [x] = x"
| "join sep (x # y # ys) = x @ sep @ join sep (y # ys)"

text \<open>The \<^verbatim>\<open>replace\<close> that strips a data-URL header of a PNG or JPEG image.\<close>

definition stripPrefix :: "string \<Rightarrow> string \<Rightarrow> string option" where
  "stripPrefix p str = (if take (length p) str = p then Some (drop (length p) str) else None)"

definition cleanBase64 :: "string \<Rightarrow> string" where
  "cleanBase64 imageBase64 =
     (case stripPrefix ''data:image/png;base64,'' imageBase64 of
        Some r \<Rightarrow> r
      | None \<Rightarrow>
          (case stripPrefix ''data:image/jpeg;base64,'' imageBase64 of
             Some r \<Rightarrow> r
           | None \<Rightarrow>
               (case stripPrefix ''data:image/jpg;base64,'' imageBase64 of
                  Some r \<Rightarrow> r
                | None \<Rightarrow> imageBase64)))"

definition initialDebug :: "'j World \<Rightarrow> string \<Rightarrow> string \<Rightarrow> string list \<Rightarrow> 'j DebugInfo" where
  "initialDebug world imageBase64 currentTrayLetters availableLetters =
     \<lparr>latency = 0,
      screenshotBase64 = Some imageBase64,
      promptContext = ''Tray: \"'' @ currentTrayLetters @ ''\", Pool: ['' @
                        join '', '' availableLetters @ '']'',
      rawResponse = [],
      parsedResponse = None,
      error = None,
      timestamp = timeString world\<rparr>"

definition fallbackFeedback :: "string \<Rightarrow> string \<Rightarrow> SpellingFeedback" where
  "fallbackFeedback currentTrayLetters msg =
     \<lparr>fb_word = currentTrayLetters, fb_isValid = False, fb_definition = None,
      fb_sentence = None, fb_suggestion = Some msg, fb_emoji = None\<rparr>"

text \<open>
  The outer \<^verbatim>\<open>try\<close> block. \<^verbatim>\<open>debug\<close> is one object mutated in place, so an
  exception leaves the block together with the \<^verbatim>\<open>debug\<close> of that moment. The
  inner \<^verbatim>\<open>try\<close> around \<^verbatim>\<open>JSON.parse\<close> has its own handler.
\<close>

definition tryBlock ::
  "'j World \<Rightarrow> string \<Rightarrow> string \<Rightarrow> string list \<Rightarrow> 'j DebugInfo \<Rightarrow>
     (JsError \<times> 'j DebugInfo) + 'j AiResponse" where
  "tryBlock world imageBase64 currentTrayLetters availableLetters debug0 =
     (case generateContent world currentTrayLetters availableLetters (cleanBase64 imageBase64) of
        Inl err \<Rightarrow> Inl (err, debug0)
      | Inr responseText \<Rightarrow>
          (let debug1 = debug0\<lparr>latency := round (endTime world - startTime world)\<rparr>;
               text = (case responseText of
                         None \<Rightarrow> ''{}''
                       | Some t \<Rightarrow> if t = [] then ''{}'' else t);
               debug2 = debug1\<lparr>rawResponse := text\<rparr>
           in case jsonParse world text of
                Inr json \<Rightarrow> Inr \<lparr>feedback = Parsed json, debug = debug2\<lparr>parsedResponse := Some json\<rparr>\<rparr>
              | Inl e \<Rightarrow>
                  Inr \<lparr>feedback = Literal (fallbackFeedback currentTrayLetters ''Keep trying!''),
                       debug = debug2\<lparr>error := Some (''JSON Parse Error: '' @ message e)\<rparr>\<rparr>))"

definition getSpellingFeedback ::
  "'j World \<Rightarrow> string \<Rightarrow> string \<Rightarrow> string list \<Rightarrow> JsError + 'j AiResponse" where
  "getSpellingFeedback world imageBase64 currentTrayLetters availableLetters =
     (let debug0 = initialDebug world imageBase64 currentTrayLetters availableLetters
      in case tryBlock world imageBase64 currentTrayLetters availableLetters debug0 of
           Inr response \<Rightarrow> Inr response
         | Inl (err, dbg) \<Rightarrow>
             Inr \<lparr>feedback = Literal (fallbackFeedback currentTrayLetters ''Coach is resting.''),
                  debug = dbg\<lparr>error := Some (if message err = [] then ''Unknown API Error''
                                                  else message err)\<rparr>\<rparr>)"

subsection \<open>Example states and inputs\<close>

text \<open>
  A round on target \<^verbatim>\<open>CAT\<close>, on a 1280 by 720 canvas, with \<^verbatim>\<open>C\<close>, \<^verbatim>\<open>A\<close>
  and \<^verbatim>\<open>T\<close> in the tray and \<^verbatim>\<open>A\<close> being dragged, held at height \<open>y\<close>.
\<close>

definition trayTile :: "string \<Rightarrow> string \<Rightarrow> nat \<Rightarrow> real \<Rightarrow> LetterTile" where
  "trayTile i ch k x =
     \<lparr>tile_id = i, tile_char = ch, tile_x = x, tile_y = TRAY_Y, targetX = x, targetY = TRAY_Y,
      color = red, isDragging = False, inTray = True, trayIndex = Some k\<rparr>"

definition catTiles :: "real \<Rightarrow> LetterTile list" where
  "catTiles y =
     [trayTile ''tile-C-0'' ''C'' 0 574,
      (trayTile ''tile-A-1'' ''A'' 1 640)\<lparr>isDragging := True, tile_y := y\<rparr>,
      trayTile ''tile-T-2'' ''T'' 2 706]"

definition catState :: "real \<Rightarrow> GameState" where
  "catState y =
     initialState\<lparr>tiles := catTiles y, activeTileId := Some ''tile-A-1'',
                   pinchFrames := 3, pinchConfirmed := True,
                   currentWord := ''CAT'', trayWord := ''CT'', wordsCompleted := 1,
                   timeLeft := 20, timerRunning := True,
                   canvasWidth := 1280, canvasHeight := 720,
                   smoothHandPos := \<lparr>pt_x = 640, pt_y = y\<rparr>\<rparr>"

text \<open>An open hand (fingertips 0.3 apart) and a pinching hand, both at the centre of the image.\<close>

definition openHand :: Hand where
  "openHand = \<lparr>idxTip = \<lparr>pt_x = 0.5, pt_y = 0.35\<rparr>, thumbTip = \<lparr>pt_x = 0.5, pt_y = 0.65\<rparr>\<rparr>"

definition pinchingHand :: Hand where
  "pinchingHand = \<lparr>idxTip = \<lparr>pt_x = 0.5, pt_y = 0.5\<rparr>, thumbTip = \<lparr>pt_x = 0.5, pt_y = 0.5\<rparr>\<rparr>"



text \<open>A parser that accepts only the empty object, and two remote calls.\<close>

definition parseOnlyEmptyObject :: "string \<Rightarrow> JsError + unit" where
  "parseOnlyEmptyObject str = (if str = ''{}'' then Inr () else Inl (Error ''Unexpected token''))"

definition exampleWorld :: "(JsError + string option) \<Rightarrow> unit World" where
  "exampleWorld outcome =
     \<lparr>startTime = 0, endTime = 812.4, timeString = ''10:15:00'',
      generateContent = (\<lambda>tray pool image. outcome),
      jsonParse = parseOnlyEmptyObject\<rparr>"

text \<open>
  A session that grabs a tile: the screen is sized to 1280 by 720, which builds the pool
  (with draws that leave the letters in order), and a pinching hand is seen for two
  frames at a place from which the smoothed cursor reaches the first tile of the pool.
\<close>

definition grabHand :: Hand where
  "grabHand = \<lparr>idxTip = \<lparr>pt_x = 0.675, pt_y = 0.9\<rparr>, thumbTip = \<lparr>pt_x = 0.675, pt_y = 0.9\<rparr>\<rparr>"

definition grabSession :: "Event list" where
  "grabSession = [Resize 1280 720 (\<lambda>i. i), Frame (Some grabHand), Frame (Some grabHand)]"

text \<open>A session of the simpler screen whose round has a target with a repeated letter.\<close>

definition cheetahSession :: "Event list" where
  "cheetahSession = [Resize 1280 720 (\<lambda>i. i), NextWord ''CHEETAH'' (\<lambda>i. 7 * i + 3)]"

text \<open>
  A MEDIUM round on target \<^verbatim>\<open>DOG\<close> at its start, 30 seconds on the clock:
  \<^verbatim>\<open>D\<close> and \<^verbatim>\<open>O\<close> are in the tray and \<^verbatim>\<open>G\<close>, taken from the pool, is
  held over the tray. From there the countdown runs for ten seconds and the hand opens.
\<close>

definition dogRound :: GameState where
  "dogRound =
     initialState\<lparr>tiles := [trayTile ''tile-D-0'' ''D'' 0 607,
                             trayTile ''tile-O-1'' ''O'' 1 673,
                             (trayTile ''tile-G-2'' ''G'' 2 640)
                               \<lparr>isDragging := True, inTray := False, trayIndex := None,
                                tile_y := 230, targetX := 445, targetY := 446\<rparr>],
                   activeTileId := Some ''tile-G-2'',
                   pinchFrames := 3, pinchConfirmed := True,
                   currentWord := ''DOG'', trayWord := ''DO'', wordsCompleted := 1,
                   timeLeft := 30, timerRunning := True,
                   canvasWidth := 1280, canvasHeight := 720,
                   smoothHandPos := \<lparr>pt_x = 640, pt_y = 230\<rparr>\<rparr>"

definition tenSecondsThenRelease :: "Event list" where
  "tenSecondsThenRelease = replicate 10 TimerTick @ [Frame (Some openHand)]"


subsection \<open>Notions used in the proofs\<close>

text \<open>Reading back the decimal number at the end of a tile id.\<close>

definition readNat :: "string \<Rightarrow> nat" where
  "readNat ds = foldl (\<lambda>a c. 10 * a + ((of_char c :: nat) - 48)) 0 ds"

definition idIndex :: "string \<Rightarrow> nat" where
  "idIndex i = readNat (rev (takeWhile isDigit (rev i)))"

text \<open>
  The invariant of the drag controller: tile ids are distinct and non-empty, and a tile
  that is being dragged is the active tile.
\<close>

definition dragInv :: "GameState \<Rightarrow> bool" where
  "dragInv s \<longleftrightarrow>
     distinct (map tile_id (tiles s)) \<and>
     (\<forall>t\<in>set (tiles s). tile_id t \<noteq> [] \<and> (isDragging t \<longrightarrow> activeTileId s = Some (tile_id t)))"

text \<open>
  The invariant of the simpler screen: the tiles carry distinct single letters, and a
  round marked solved has a target without repeated letters.
\<close>

definition singleLetters :: "string list \<Rightarrow> bool" where
  "singleLetters cs \<longleftrightarrow> distinct cs \<and> (\<forall>c\<in>set cs. length c = 1)"

definition letterInv :: "GameState \<Rightarrow> bool" where
  "letterInv s \<longleftrightarrow>
     singleLetters (map tile_char (tiles s)) \<and> (isCorrect s \<longrightarrow> distinct (currentWord s))"

text \<open>
  A field of a tile that no frame and no scramble writes: it ignores updates of the
  position, the target, the flags and the tray index.
\<close>

definition fixedField :: "(LetterTile \<Rightarrow> 'a) \<Rightarrow> bool" where
  "fixedField f \<longleftrightarrow>
     (\<forall>t a. f (t\<lparr>tile_x := a\<rparr>) = f t) \<and> (\<forall>t a. f (t\<lparr>tile_y := a\<rparr>) = f t) \<and>
     (\<forall>t a. f (t\<lparr>targetX := a\<rparr>) = f t) \<and> (\<forall>t a. f (t\<lparr>targetY := a\<rparr>) = f t) \<and>
     (\<forall>t a. f (t\<lparr>isDragging := a\<rparr>) = f t) \<and> (\<forall>t a. f (t\<lparr>inTray := a\<rparr>) = f t) \<and>
     (\<forall>t a. f (t\<lparr>trayIndex := a\<rparr>) = f t)"





text \<open>A state whose tiles and target are in upper case.\<close>

definition upperCaseState :: "GameState \<Rightarrow> bool" where
  "upperCaseState s \<longleftrightarrow>
     list_all (\<lambda>c. toUpperCase c = c) (map tile_char (tiles s)) \<and>
     toUpperCase (currentWord s) = currentWord s"

section \<open>Verification\<close>

subsection \<open>Lists, slots and the fields a release touches\<close>


lemma findIndex_Some:
  "findIndex P ts = Some i \<Longrightarrow> i < length ts \<and> P (ts ! i) \<and> (\<forall>j<i. \<not> P (ts ! j))"
proof (induction ts arbitrary: i)
  case Nil
  then show ?case by simp
next
  case (Cons t ts)
  show ?case
  proof (cases "P t")
    case True
    with Cons.prems show ?thesis by simp
  next
    case False
    with Cons.prems obtain k where k: "findIndex P ts = Some k" "i = Suc k"
      by auto
    from Cons.IH [OF k(1)] False k(2) show ?thesis
      by (auto simp: nth_Cons less_Suc_eq_0_disj)
  qed
qed

lemma findIndex_None: "findIndex P ts = None \<longleftrightarrow> (\<forall>t\<in>set ts. \<not> P t)"
  by (induction ts) auto

lemma map_update_same: "(map f ts)[j := f (ts ! j)] = map f ts"
  by (cases "j < length ts") (simp_all add: list_update_same_conv list_update_beyond)

lemma placeAll_length [simp]: "length (placeAll sx k js ts) = length ts"
  by (induction js arbitrary: k ts) simp_all

lemma placeAll_map:
  assumes "\<And>k t. f (placeInSlot sx k t) = f t"
  shows "map f (placeAll sx k js ts) = map f ts"
  using assms
  by (induction js arbitrary: k ts) (simp_all add: map_update map_update_same)


lemma placeAll_append:
  "placeAll sx k (js @ js') ts = placeAll sx (k + length js) js' (placeAll sx k js ts)"
  by (induction js arbitrary: k ts) simp_all





lemma placeInSlot_fields [simp]:
  "tile_id (placeInSlot sx k t) = tile_id t"
  "tile_char (placeInSlot sx k t) = tile_char t"
  "tile_x (placeInSlot sx k t) = tile_x t"
  "tile_y (placeInSlot sx k t) = tile_y t"
  "isDragging (placeInSlot sx k t) = isDragging t"
  "inTray (placeInSlot sx k t) = inTray t"
  "trayIndex (placeInSlot sx k t) = Some k"
  "targetY (placeInSlot sx k t) = TRAY_Y"
  by (simp_all add: placeInSlot_def)

lemma updateTrayWord_fields [simp]:
  "tiles (updateTrayWord s) = tiles s"
  "activeTileId (updateTrayWord s) = activeTileId s"
  "pinchFrames (updateTrayWord s) = pinchFrames s"
  "pinchConfirmed (updateTrayWord s) = pinchConfirmed s"
  "smoothHandPos (updateTrayWord s) = smoothHandPos s"
  "currentWord (updateTrayWord s) = currentWord s"
  "canvasWidth (updateTrayWord s) = canvasWidth s"
  "canvasHeight (updateTrayWord s) = canvasHeight s"
  by (simp_all add: updateTrayWord_def Let_def)

lemma settle_fields [simp]:
  "activeTileId (settle s) = activeTileId s"
  "pinchFrames (settle s) = pinchFrames s"
  "pinchConfirmed (settle s) = pinchConfirmed s"
  "smoothHandPos (settle s) = smoothHandPos s"
  "currentWord (settle s) = currentWord s"
  "isCorrect (settle s) = isCorrect s"
  "score (settle s) = score s"
  "sounds (settle s) = sounds s"
  "trayWord (settle s) = trayWord s"
  "canvasWidth (settle s) = canvasWidth s"
  "canvasHeight (settle s) = canvasHeight s"
  "length (tiles (settle s)) = length (tiles s)"
  by (simp_all add: settle_def)

lemma settleTile_fields [simp]:
  "tile_id (settleTile t) = tile_id t"
  "tile_char (settleTile t) = tile_char t"
  "isDragging (settleTile t) = isDragging t"
  "inTray (settleTile t) = inTray t"
  "trayIndex (settleTile t) = trayIndex t"
  "targetX (settleTile t) = targetX t"
  "targetY (settleTile t) = targetY t"
  by (simp_all add: settleTile_def)

lemma settle_nth [simp]:
  "j < length (tiles s) \<Longrightarrow> tiles (settle s) ! j = settleTile (tiles s ! j)"
  by (simp add: settle_def)

lemma dropTile_fields [simp]:
  "activeTileId (dropTile i s) = activeTileId s"
  "pinchFrames (dropTile i s) = pinchFrames s"
  "pinchConfirmed (dropTile i s) = pinchConfirmed s"
  "smoothHandPos (dropTile i s) = smoothHandPos s"
  "currentWord (dropTile i s) = currentWord s"
  "isCorrect (dropTile i s) = isCorrect s"
  "score (dropTile i s) = score s"
  "canvasWidth (dropTile i s) = canvasWidth s"
  "canvasHeight (dropTile i s) = canvasHeight s"
  "length (tiles (dropTile i s)) = length (tiles s)"
  by (simp_all add: dropTile_def Let_def)

lemma dropTile_map_keep:
  assumes "\<And>sx k t. f (placeInSlot sx k t) = f t"
    and "\<And>t b. f (t\<lparr>isDragging := b\<rparr>) = f t"
    and "\<And>t b. f (t\<lparr>inTray := b\<rparr>) = f t"
    and "\<And>t b. f (t\<lparr>trayIndex := b\<rparr>) = f t"
    and "\<And>t b. f (t\<lparr>targetY := b\<rparr>) = f t"
  shows "map f (tiles (dropTile i s)) = map f (tiles s)"
  using assms
  by (simp add: dropTile_def Let_def placeAll_map [where f = f] map_update map_update_same)

lemma dropTile_ids [simp]: "map tile_id (tiles (dropTile i s)) = map tile_id (tiles s)"
  by (rule dropTile_map_keep) simp_all

lemma dropTile_chars [simp]: "map tile_char (tiles (dropTile i s)) = map tile_char (tiles s)"
  by (rule dropTile_map_keep) simp_all

lemma dropTile_isDragging:
  "map isDragging (tiles (dropTile i s)) = (map isDragging (tiles s))[i := False]"
  by (simp add: dropTile_def Let_def placeAll_map [where f = isDragging] map_update)

lemma dropTile_inTray:
  "map inTray (tiles (dropTile i s)) =
     (map inTray (tiles s))[i := (\<bar>tile_y (tiles s ! i) - TRAY_Y\<bar> < 100)]"
  by (simp add: dropTile_def Let_def placeAll_map [where f = inTray] map_update)


lemma dropTile_tile_x [simp]: "map tile_x (tiles (dropTile i s)) = map tile_x (tiles s)"
  by (rule dropTile_map_keep) simp_all

lemma dropTile_tile_y [simp]: "map tile_y (tiles (dropTile i s)) = map tile_y (tiles s)"
  by (rule dropTile_map_keep) simp_all

lemma nth_of_map_eq:
  "map f xs = ys \<Longrightarrow> i < length xs \<Longrightarrow> f (xs ! i) = ys ! i"
  by (metis nth_map)

lemma releaseActive_found:
  "findIndex (\<lambda>t. Some (tile_id t) = activeTileId s) (tiles s) = Some i \<Longrightarrow>
     releaseActive s = updateTrayWord ((dropTile i s)\<lparr>activeTileId := None\<rparr>)"
  by (simp add: releaseActive_def)

lemma onResults_None:
  "truthy (activeTileId s) \<Longrightarrow>
     onResults None s = settle (releaseActive (s\<lparr>pinchFrames := 0, pinchConfirmed := False\<rparr>))"
  by (simp add: onResults_def trackHand_def grabConfirm_def effectivePinch_def dragController_def)

lemma onResultsSimple_None:
  "truthy (activeTileId s) \<Longrightarrow> onResultsSimple None s = settle (releaseActive s)"
  by (simp add: onResultsSimple_def dragController_def)

lemma released_tile:
  assumes f: "findIndex (\<lambda>t. Some (tile_id t) = activeTileId s) (tiles s) = Some i"
  defines "r \<equiv> settle (releaseActive s)"
  shows "activeTileId r = None"
    and "\<not> isDragging (tiles r ! i)"
    and "inTray (tiles r ! i) \<longleftrightarrow> \<bar>tile_y (tiles s ! i) - TRAY_Y\<bar> < 100"
    and "tile_x (tiles r ! i) = tile_x (tiles s ! i) + (targetX (tiles r ! i) - tile_x (tiles s ! i)) * 0.15"
    and "tile_y (tiles r ! i) = tile_y (tiles s ! i) + (targetY (tiles r ! i) - tile_y (tiles s ! i)) * 0.15"
    and "pinchFrames r = pinchFrames s" and "pinchConfirmed r = pinchConfirmed s"
proof -
  from findIndex_Some [OF f] have i: "i < length (tiles s)" by simp
  have r: "r = settle (updateTrayWord ((dropTile i s)\<lparr>activeTileId := None\<rparr>))"
    by (simp add: r_def releaseActive_found [OF f])
  have d: "\<not> isDragging (tiles (dropTile i s) ! i)"
    using nth_of_map_eq [OF dropTile_isDragging, of i i s] i by simp
  have t: "inTray (tiles (dropTile i s) ! i) \<longleftrightarrow> \<bar>tile_y (tiles s ! i) - TRAY_Y\<bar> < 100"
    using nth_of_map_eq [OF dropTile_inTray, of i i s] i by simp
  have x: "tile_x (tiles (dropTile i s) ! i) = tile_x (tiles s ! i)"
    using nth_of_map_eq [OF dropTile_tile_x, of i i s] i by simp
  have y: "tile_y (tiles (dropTile i s) ! i) = tile_y (tiles s ! i)"
    using nth_of_map_eq [OF dropTile_tile_y, of i i s] i by simp
  show "activeTileId r = None" by (simp add: r)
  show "\<not> isDragging (tiles r ! i)" using d i by (simp add: r)
  show "inTray (tiles r ! i) \<longleftrightarrow> \<bar>tile_y (tiles s ! i) - TRAY_Y\<bar> < 100"
    using t i by (simp add: r)
  show "tile_x (tiles r ! i) = tile_x (tiles s ! i) + (targetX (tiles r ! i) - tile_x (tiles s ! i)) * 0.15"
    using d x i by (simp add: r settleTile_def)
  show "tile_y (tiles r ! i) = tile_y (tiles s ! i) + (targetY (tiles r ! i) - tile_y (tiles s ! i)) * 0.15"
    using d y i by (simp add: r settleTile_def)
  show "pinchFrames r = pinchFrames s" "pinchConfirmed r = pinchConfirmed s"
    by (simp_all add: r)
qed












subsection \<open>Losing the hand in the middle of a drag\<close>

text \<open>
  Claim C1, as the code has it. A frame without a hand has no cursor, so the guard
  \<^verbatim>\<open>handPos && isPinching && !isCorrect\<close> fails and, a tile being active, the
  release branch runs. Such a frame therefore resets the pinch counter and the confirmed
  flag (on the richer screen) and releases the tile: \<^verbatim>\<open>isDragging\<close> is cleared, tray
  membership is decided by the capture band around the tray line at the height where
  the tile was left, and the active tile id is cleared. The position is not set from any
  cursor; the tile, no longer dragged, eases towards its target in the same frame. The
  same holds on the simpler screen, which has no pinch counter.
\<close>

theorem hand_lost_releases_active_tile:
  assumes "truthy (activeTileId s)"
    and "findIndex (\<lambda>t. Some (tile_id t) = activeTileId s) (tiles s) = Some i"
    and "isDragging (tiles s ! i)"
  shows "(let r = onResults None s in
            pinchFrames r = 0 \<and> \<not> pinchConfirmed r \<and> activeTileId r = None \<and>
            \<not> isDragging (tiles r ! i) \<and>
            (inTray (tiles r ! i) \<longleftrightarrow> \<bar>tile_y (tiles s ! i) - TRAY_Y\<bar> < 100) \<and>
            tile_x (tiles r ! i) = tile_x (tiles s ! i) + (targetX (tiles r ! i) - tile_x (tiles s ! i)) * 0.15 \<and>
            tile_y (tiles r ! i) = tile_y (tiles s ! i) + (targetY (tiles r ! i) - tile_y (tiles s ! i)) * 0.15) \<and>
         (let q = onResultsSimple None s in
            activeTileId q = None \<and> \<not> isDragging (tiles q ! i) \<and>
            (inTray (tiles q ! i) \<longleftrightarrow> \<bar>tile_y (tiles s ! i) - TRAY_Y\<bar> < 100) \<and>
            tile_x (tiles q ! i) = tile_x (tiles s ! i) + (targetX (tiles q ! i) - tile_x (tiles s ! i)) * 0.15 \<and>
            tile_y (tiles q ! i) = tile_y (tiles s ! i) + (targetY (tiles q ! i) - tile_y (tiles s ! i)) * 0.15)"
proof -
  let ?s0 = "s\<lparr>pinchFrames := 0, pinchConfirmed := False\<rparr>"
  have f0: "findIndex (\<lambda>t. Some (tile_id t) = activeTileId ?s0) (tiles ?s0) = Some i"
    using assms(2) by simp
  have rich: "onResults None s = settle (releaseActive ?s0)"
    using assms(1) by (rule onResults_None)
  have simple: "onResultsSimple None s = settle (releaseActive s)"
    using assms(1) by (rule onResultsSimple_None)
  show ?thesis
    unfolding Let_def rich simple
    using released_tile [OF f0] released_tile [OF assms(2)]
    by simp
qed

theorem hand_lost_releases_active_tile_witness:
  "truthy (activeTileId (catState 400)) \<and>
   findIndex (\<lambda>t. Some (tile_id t) = activeTileId (catState 400)) (tiles (catState 400)) = Some (Suc 0) \<and>
   isDragging (tiles (catState 400) ! Suc 0) \<and>
   pinchFrames (onResults None (catState 400)) = 0 \<and>
   \<not> pinchConfirmed (onResults None (catState 400)) \<and>
   activeTileId (onResults None (catState 400)) = None \<and>
   \<not> isDragging (tiles (onResults None (catState 400)) ! Suc 0) \<and>
   \<not> inTray (tiles (onResults None (catState 400)) ! Suc 0) \<and>
   \<not> isDragging (tiles (onResultsSimple None (catState 400)) ! Suc 0)"
proof -
  have h1: "truthy (activeTileId (catState 400))"
    by (simp add: catState_def)
  have h2: "findIndex (\<lambda>t. Some (tile_id t) = activeTileId (catState 400)) (tiles (catState 400)) = Some (Suc 0)"
    by (simp add: catState_def catTiles_def trayTile_def)
  have h3: "isDragging (tiles (catState 400) ! Suc 0)"
    by (simp add: catState_def catTiles_def trayTile_def)
  have y: "tile_y (tiles (catState 400) ! Suc 0) = 400"
    by (simp add: catState_def catTiles_def trayTile_def)
  show ?thesis
    using hand_lost_releases_active_tile [OF h1 h2 h3] h1 h2 h3
    by (simp add: Let_def y TRAY_Y_def)
qed

text \<open>
  As stated, C1 fails: the tile \<^verbatim>\<open>A\<close> of the tray, dragged down to height 400 and
  still active, is released by a single frame without a hand. It stops being dragged, it
  leaves the tray, the active tile id is cleared, and it moves (to height 373).
\<close>

theorem hand_lost_counterexample:
  "activeTileId (catState 400) = Some ''tile-A-1'' \<and>
   tile_id (tiles (catState 400) ! 1) = ''tile-A-1'' \<and>
   isDragging (tiles (catState 400) ! 1) \<and>
   inTray (tiles (catState 400) ! 1) \<and>
   tile_y (tiles (catState 400) ! 1) = 400 \<and>
   \<not> isDragging (tiles (onResults None (catState 400)) ! 1) \<and>
   \<not> inTray (tiles (onResults None (catState 400)) ! 1) \<and>
   activeTileId (onResults None (catState 400)) = None \<and>
   tile_y (tiles (onResults None (catState 400)) ! 1) = 373"
  by (simp add: onResults_def trackHand_def grabConfirm_def effectivePinch_def
        dragController_def releaseActive_def dropTile_def updateTrayWord_def
        trayWordOf_def trayTilesSorted_def trayKey_def settle_def settleTile_def
        catState_def catTiles_def trayTile_def initialState_def TRAY_Y_def Let_def)

subsection \<open>Tray indices after a release\<close>

lemma pinchDistance_less:
  "0 \<le> c \<Longrightarrow>
     pinchDistance hand < c \<longleftrightarrow>
       (pt_x (thumbTip hand) - pt_x (idxTip hand)) * (pt_x (thumbTip hand) - pt_x (idxTip hand)) +
       (pt_y (idxTip hand) - pt_y (thumbTip hand)) * (pt_y (idxTip hand) - pt_y (thumbTip hand)) < c * c"
proof -
  assume c: "0 \<le> c"
  have "sqrt a < c \<longleftrightarrow> a < c * c" for a
    using c real_sqrt_less_iff [of a "c * c"] by simp
  then show ?thesis
    by (simp add: pinchDistance_def Let_def)
qed

text \<open>
  Claim C2 at the input where the code departs from it. The tray holds \<^verbatim>\<open>C\<close>,
  \<^verbatim>\<open>A\<close>, \<^verbatim>\<open>T\<close> with indices 0, 1, 2; \<^verbatim>\<open>A\<close> has been dragged down to
  height 400, outside the capture band, and the hand opens. The release branch for a
  drop outside the band only clears the flags of the dropped tile and renumbers nothing:
  the two tiles left in the tray keep the indices 0 and 2.
\<close>

theorem drop_outside_band_leaves_gap:
  "map trayIndex (filter inTray (tiles (catState 400))) = [Some 0, Some 1, Some 2] \<and>
   activeTileId (catState 400) = Some ''tile-A-1'' \<and>
   activeTileId (onResults (Some openHand) (catState 400)) = None \<and>
   map tile_char (filter inTray (tiles (onResults (Some openHand) (catState 400)))) = [''C'', ''T''] \<and>
   map trayIndex (filter inTray (tiles (onResults (Some openHand) (catState 400)))) = [Some 0, Some 2]"
proof -
  have act: "truthy (activeTileId (catState 400))"
    by (simp add: catState_def)
  have "\<not> pinchDistance openHand < PINCH_RELEASE_THRESHOLD"
    using pinchDistance_less [of PINCH_RELEASE_THRESHOLD openHand]
    by (simp add: PINCH_RELEASE_THRESHOLD_def openHand_def)
  then have raw: "rawPinch openHand (catState 400) = False"
    using act by (simp add: rawPinch_def)
  have frame: "onResults (Some openHand) (catState 400) =
      settle (releaseActive ((catState 400)
        \<lparr>smoothHandPos := smoothStep (smoothHandPos (catState 400))
                            (rawCursor (canvasWidth (catState 400)) (canvasHeight (catState 400)) openHand),
         pinchFrames := 0\<rparr>))"
    using act
    by (simp add: onResults_def trackHand_def raw grabConfirm_def effectivePinch_def
          dragController_def Let_def)
  show ?thesis
    unfolding frame
    by (simp add: releaseActive_def dropTile_def updateTrayWord_def
          trayWordOf_def trayTilesSorted_def trayKey_def settle_def settleTile_def
          catState_def catTiles_def trayTile_def initialState_def TRAY_Y_def Let_def)
qed

subsection \<open>Word evaluator\<close>

lemma updateTrayWord_isCorrect:
  "isCorrect (updateTrayWord s) \<longleftrightarrow> trayWordOf (tiles s) = currentWord s \<and> trayWordOf (tiles s) \<noteq> []"
  by (auto simp add: updateTrayWord_def Let_def)


subsection \<open>Smoothing filter\<close>

text \<open>
  Claim C4 at the input where the code departs from it. The screen is mounted on a 1280
  by 720 canvas, the smoothed cursor still at the origin. A frame without a hand is
  followed by a frame with a hand whose fingertips meet at the centre of the image: the
  raw sample is (640, 360). The branch for a lost hand resets the pinch counter and the
  confirmed flag only, and the next tracked frame blends as every tracked frame does:
  the smoothed cursor becomes (288, 162), not the raw sample.
\<close>

theorem reacquired_hand_is_blended_not_snapped:
  "smoothHandPos (onResults None (initialState\<lparr>canvasWidth := 1280, canvasHeight := 720\<rparr>))
     = \<lparr>pt_x = 0, pt_y = 0\<rparr> \<and>
   rawCursor 1280 720 pinchingHand = \<lparr>pt_x = 640, pt_y = 360\<rparr> \<and>
   smoothHandPos (onResults (Some pinchingHand)
       (onResults None (initialState\<lparr>canvasWidth := 1280, canvasHeight := 720\<rparr>)))
     = \<lparr>pt_x = 288, pt_y = 162\<rparr>"
proof -
  have lost: "onResults None (initialState\<lparr>canvasWidth := 1280, canvasHeight := 720\<rparr>)
                = initialState\<lparr>canvasWidth := 1280, canvasHeight := 720\<rparr>"
    by (simp add: onResults_def trackHand_def grabConfirm_def effectivePinch_def
          dragController_def settle_def initialState_def)
  have raw: "rawCursor 1280 720 pinchingHand = \<lparr>pt_x = 640, pt_y = 360\<rparr>"
    by (simp add: rawCursor_def pinchingHand_def Let_def)
  have sm: "smoothHandPos (onResults (Some hand) s)
              = smoothStep (smoothHandPos s) (rawCursor (canvasWidth s) (canvasHeight s) hand)" for hand s
    by (simp add: onResults_def trackHand_def grabConfirm_def dragController_def
          grabOrMove_def releaseActive_def Let_def split: option.split)
  show ?thesis
    unfolding lost sm
    by (simp add: raw smoothStep_def HAND_SMOOTH_def initialState_def)
qed

subsection \<open>Pinch classifier\<close>

text \<open>
  Claim C5, for one frame with a tracked hand on the richer screen, from any state. The
  grab threshold is strictly below the release threshold. The raw pinch compares the
  fingertip distance with the release threshold when a tile is active and with the grab
  threshold otherwise. The counter is incremented up to its cap of
  \<^verbatim>\<open>GRAB_CONFIRM_FRAMES + 1\<close> on a raw pinch and reset to 0 otherwise. The confirmed
  flag is true after the frame exactly when the counter has reached
  \<^verbatim>\<open>GRAB_CONFIRM_FRAMES\<close> = 2 in this frame, or when it was true before and this frame
  did not reset it; a frame resets it only when there is no raw pinch and no active
  tile, so it survives resets of the counter while a tile is active. The drag controller
  is run with the raw pinch and (confirmed or a tile active), where the active tile is
  the one at the start of the frame.
\<close>

theorem pinch_classifier_frame:
  "PINCH_GRAB_THRESHOLD < PINCH_RELEASE_THRESHOLD \<and> GRAB_CONFIRM_FRAMES = 2 \<and>
   (case trackHand (Some hand) s of
      (handPos, raw, s1) \<Rightarrow>
        (let s2 = grabConfirm raw s1 in
           (raw \<longleftrightarrow> pinchDistance hand <
                     (if truthy (activeTileId s) then PINCH_RELEASE_THRESHOLD
                      else PINCH_GRAB_THRESHOLD)) \<and>
           pinchFrames s2 = (if raw then min (pinchFrames s + 1) (GRAB_CONFIRM_FRAMES + 1) else 0) \<and>
           pinchFrames s2 \<le> GRAB_CONFIRM_FRAMES + 1 \<and>
           (pinchConfirmed s2 \<longleftrightarrow>
              (raw \<and> GRAB_CONFIRM_FRAMES \<le> pinchFrames s2) \<or>
              (pinchConfirmed s \<and> (raw \<or> truthy (activeTileId s)))) \<and>
           activeTileId s2 = activeTileId s \<and>
           onResults (Some hand) s =
             settle (dragController handPos
                       (raw \<and> (pinchConfirmed s2 \<or> truthy (activeTileId s))) s2)))"
  by (auto simp add: trackHand_def grabConfirm_def rawPinch_def onResults_def effectivePinch_def
        Let_def PINCH_GRAB_THRESHOLD_def PINCH_RELEASE_THRESHOLD_def GRAB_CONFIRM_FRAMES_def)

theorem pinch_classifier_frame_witness:
  "(case trackHand (Some pinchingHand) (initialState\<lparr>pinchFrames := 1\<rparr>) of
      (handPos, raw, s1) \<Rightarrow>
        raw \<and> pinchFrames (grabConfirm raw s1) = 2 \<and> pinchConfirmed (grabConfirm raw s1))"
proof -
  define s where "s = initialState\<lparr>pinchFrames := 1\<rparr>"
  obtain hp raw s1 where t: "trackHand (Some pinchingHand) s = (hp, raw, s1)"
    using prod_cases3 by blast
  have d0: "pinchDistance pinchingHand = 0"
    by (simp add: pinchDistance_def pinchingHand_def)
  have a: "\<not> truthy (activeTileId s)" "pinchFrames s = 1"
    by (simp_all add: s_def initialState_def)
  note th = pinch_classifier_frame [of pinchingHand s, unfolded t prod.case Let_def]
  note c = th [THEN conjunct2, THEN conjunct2]
  have r: raw
    using c [THEN conjunct1] by (simp add: a d0 PINCH_GRAB_THRESHOLD_def)
  have n: "pinchFrames (grabConfirm raw s1) = 2"
    using c [THEN conjunct2, THEN conjunct1] r by (simp add: a GRAB_CONFIRM_FRAMES_def)
  have "pinchConfirmed (grabConfirm raw s1)"
    using c [THEN conjunct2, THEN conjunct2, THEN conjunct2, THEN conjunct1] r n
    by (simp add: GRAB_CONFIRM_FRAMES_def)
  then have "case trackHand (Some pinchingHand) s of
      (handPos, raw, s1) \<Rightarrow>
        raw \<and> pinchFrames (grabConfirm raw s1) = 2 \<and> pinchConfirmed (grabConfirm raw s1)"
    using r n by (simp add: t)
  then show ?thesis
    unfolding s_def .
qed

subsection \<open>The advisory service never rejects\<close>

text \<open>
  Claim C8. For every image, tray string and pool, and whatever the remote call and
  \<^verbatim>\<open>JSON.parse\<close> do, \<^verbatim>\<open>getSpellingFeedback\<close> resolves with a response. When
  the remote call fails, the feedback is the literal with \<^verbatim>\<open>isValid\<close> false and
  the suggestion \<^verbatim>\<open>Coach is resting.\<close>, and the message of the error (or
  \<^verbatim>\<open>Unknown API Error\<close> when it is empty) is in the \<^verbatim>\<open>error\<close> field of
  \<^verbatim>\<open>debug\<close>. When the remote call succeeds and its text does not parse, the feedback
  is the literal with the suggestion \<^verbatim>\<open>Keep trying!\<close> and \<^verbatim>\<open>debug\<close> records the
  parse error. When the text parses, the feedback is the parsed value and no error is
  recorded.
\<close>

theorem getSpellingFeedback_never_rejects:
  "(\<exists>r. getSpellingFeedback world img tray pool = Inr r) \<and>
   (\<forall>err. generateContent world tray pool (cleanBase64 img) = Inl err \<longrightarrow>
      (\<exists>r. getSpellingFeedback world img tray pool = Inr r \<and>
           feedback r = Literal \<lparr>fb_word = tray, fb_isValid = False, fb_definition = None,
                                 fb_sentence = None, fb_suggestion = Some ''Coach is resting.'',
                                 fb_emoji = None\<rparr> \<and>
           error (debug r) = Some (if message err = [] then ''Unknown API Error'' else message err))) \<and>
   (\<forall>txt e. generateContent world tray pool (cleanBase64 img) = Inr txt \<and>
            jsonParse world (case txt of None \<Rightarrow> ''{}'' | Some t \<Rightarrow> if t = [] then ''{}'' else t) = Inl e \<longrightarrow>
      (\<exists>r. getSpellingFeedback world img tray pool = Inr r \<and>
           feedback r = Literal \<lparr>fb_word = tray, fb_isValid = False, fb_definition = None,
                                 fb_sentence = None, fb_suggestion = Some ''Keep trying!'',
                                 fb_emoji = None\<rparr> \<and>
           error (debug r) = Some (''JSON Parse Error: '' @ message e))) \<and>
   (\<forall>txt j. generateContent world tray pool (cleanBase64 img) = Inr txt \<and>
            jsonParse world (case txt of None \<Rightarrow> ''{}'' | Some t \<Rightarrow> if t = [] then ''{}'' else t) = Inr j \<longrightarrow>
      (\<exists>r. getSpellingFeedback world img tray pool = Inr r \<and>
           feedback r = Parsed j \<and> error (debug r) = None))"
  by (auto simp add: getSpellingFeedback_def tryBlock_def initialDebug_def fallbackFeedback_def
        Let_def split: sum.splits option.splits)

theorem getSpellingFeedback_never_rejects_witness:
  "generateContent (exampleWorld (Inl (Error ''quota exceeded''))) ''CA'' [''T'', ''X'']
       (cleanBase64 ''data:image/png;base64,AAAA'') = Inl (Error ''quota exceeded'') \<and>
   (\<exists>r. getSpellingFeedback (exampleWorld (Inl (Error ''quota exceeded'')))
            ''data:image/png;base64,AAAA'' ''CA'' [''T'', ''X''] = Inr r \<and>
        feedback r = Literal \<lparr>fb_word = ''CA'', fb_isValid = False, fb_definition = None,
                              fb_sentence = None, fb_suggestion = Some ''Coach is resting.'',
                              fb_emoji = None\<rparr> \<and>
        error (debug r) = Some ''quota exceeded'') \<and>
   generateContent (exampleWorld (Inr (Some ''not json''))) ''CA'' [''T'', ''X'']
       (cleanBase64 ''data:image/png;base64,AAAA'') = Inr (Some ''not json'') \<and>
   jsonParse (exampleWorld (Inr (Some ''not json''))) ''not json'' = Inl (Error ''Unexpected token'') \<and>
   (\<exists>r. getSpellingFeedback (exampleWorld (Inr (Some ''not json'')))
            ''data:image/png;base64,AAAA'' ''CA'' [''T'', ''X''] = Inr r \<and>
        feedback r = Literal \<lparr>fb_word = ''CA'', fb_isValid = False, fb_definition = None,
                              fb_sentence = None, fb_suggestion = Some ''Keep trying!'',
                              fb_emoji = None\<rparr> \<and>
        error (debug r) = Some ''JSON Parse Error: Unexpected token'')"
proof -
  have g1: "generateContent (exampleWorld (Inl (Error ''quota exceeded''))) ''CA'' [''T'', ''X'']
       (cleanBase64 ''data:image/png;base64,AAAA'') = Inl (Error ''quota exceeded'')"
    by (simp add: exampleWorld_def)
  have g2: "generateContent (exampleWorld (Inr (Some ''not json''))) ''CA'' [''T'', ''X'']
       (cleanBase64 ''data:image/png;base64,AAAA'') = Inr (Some ''not json'')"
    by (simp add: exampleWorld_def)
  have p2: "jsonParse (exampleWorld (Inr (Some ''not json''))) ''not json'' = Inl (Error ''Unexpected token'')"
    by (simp add: exampleWorld_def parseOnlyEmptyObject_def)
  note a = getSpellingFeedback_never_rejects
    [of "exampleWorld (Inl (Error ''quota exceeded''))" "''data:image/png;base64,AAAA''" "''CA''"
        "[''T'', ''X'']", THEN conjunct2, THEN conjunct1, rule_format, OF g1]
  have p2': "jsonParse (exampleWorld (Inr (Some ''not json'')))
      (case Some ''not json'' of None \<Rightarrow> ''{}'' | Some t \<Rightarrow> if t = [] then ''{}'' else t)
      = Inl (Error ''Unexpected token'')"
    using p2 by simp
  note b = getSpellingFeedback_never_rejects
    [of "exampleWorld (Inr (Some ''not json''))" "''data:image/png;base64,AAAA''" "''CA''"
        "[''T'', ''X'']", THEN conjunct2, THEN conjunct2, THEN conjunct1, rule_format,
     OF conjI [OF g2 p2']]
  show ?thesis
    using a b g1 g2 p2 by simp
qed

subsection \<open>Putting a tray tile back into the tray\<close>



subsection \<open>The shuffle, the tile ids and the layout of the pool\<close>



lemma shuffleLoop_length [simp]: "length (shuffleLoop rnd k xs) = length xs"
  by (induction k arbitrary: xs) (simp_all add: Let_def)

lemma shuffleLoop_mset: "k < length xs \<Longrightarrow> mset (shuffleLoop rnd k xs) = mset xs"
proof (induction k arbitrary: xs)
  case 0
  then show ?case by simp
next
  case (Suc k)
  have j: "rnd (Suc k) mod (Suc k + 1) < length xs"
    using Suc.prems by (metis Suc_eq_plus1 less_Suc_eq_le mod_less_divisor order_le_less_trans zero_less_Suc)
  have "mset (xs[Suc k := xs ! (rnd (Suc k) mod (Suc k + 1)),
              rnd (Suc k) mod (Suc k + 1) := xs ! Suc k]) = mset xs"
    using Suc.prems j by (simp add: mset_swap)
  with Suc show ?case by (simp add: Let_def)
qed

lemma shuffleArray_length [simp]: "length (shuffleArray rnd xs) = length xs"
  by (simp add: shuffleArray_def)

lemma shuffleArray_mset [simp]: "mset (shuffleArray rnd xs) = mset xs"
proof (cases xs)
  case Nil
  then show ?thesis by (simp add: shuffleArray_def)
next
  case (Cons a list)
  then show ?thesis by (simp add: shuffleArray_def shuffleLoop_mset)
qed

lemma readNat_snoc: "readNat (ds @ [c]) = 10 * readNat ds + ((of_char c :: nat) - 48)"
  by (simp add: readNat_def)

lemma readNat_showNat: "readNat (showNat n) = n"
proof (induction n rule: showNat.induct)
  case (1 n)
  show ?case
  proof (cases "n < 10")
    case True
    then show ?thesis
      by (subst showNat.simps) (simp add: readNat_def)
  next
    case False
    have m: "(48 + n mod 10) mod 256 = 48 + n mod 10"
      by (rule mod_less) (simp add: less_le_trans [OF add_strict_left_mono [OF pos_mod_bound [of 10 n]]])
    from False 1 have "readNat (showNat (n div 10)) = n div 10" by simp
    with False show ?thesis
      by (subst showNat.simps) (simp add: readNat_snoc m)
  qed
qed

lemma showNat_digits: "c \<in> set (showNat n) \<Longrightarrow> isDigit c"
proof (induction n rule: showNat.induct)
  case (1 n)
  have d: "isDigit (char_of (48 + k))" if "k < 10" for k :: nat
    using that by (simp add: isDigit_def)
  show ?case
  proof (cases "n < 10")
    case True
    with "1.prems" d [of n] show ?thesis
      by (subst (asm) showNat.simps) simp
  next
    case False
    with "1.prems" "1.IH" d [of "n mod 10"] show ?thesis
      by (subst (asm) showNat.simps) auto
  qed
qed

lemma idIndex_tileId [simp]: "idIndex (tileId ch k) = k"
proof -
  have nd: "\<not> isDigit CHR ''-''" by (simp add: isDigit_def)
  have "rev (tileId ch k) = rev (showNat k) @ CHR ''-'' # rev ch @ rev ''tile-''"
    by (simp add: tileId_def)
  moreover have "takeWhile isDigit (rev (showNat k) @ CHR ''-'' # rev ch @ rev ''tile-'')
      = rev (showNat k) @ takeWhile isDigit (CHR ''-'' # rev ch @ rev ''tile-'')"
    by (rule takeWhile_append2) (simp add: showNat_digits)
  moreover have "takeWhile isDigit (CHR ''-'' # rev ch @ rev ''tile-'') = []"
    using nd by simp
  ultimately show ?thesis
    by (simp add: idIndex_def readNat_showNat)
qed

lemma tileId_nonempty [simp]: "tileId ch k \<noteq> []"
  by (simp add: tileId_def)

lemma newTile_fields [simp]:
  "tile_id (newTile ch k x y) = tileId ch k"
  "tile_char (newTile ch k x y) = ch"
  "\<not> isDragging (newTile ch k x y)"
  "\<not> inTray (newTile ch k x y)"
  "tile_x (newTile ch k x y) = x" "tile_y (newTile ch k x y) = y"
  "targetX (newTile ch k x y) = x" "targetY (newTile ch k x y) = y"
  by (simp_all add: newTile_def)


lemma layoutRows_fresh:
  "t \<in> set (layoutRows letters w y0 rows r k) \<Longrightarrow>
     \<not> isDragging t \<and> \<not> inTray t \<and> tile_id t \<noteq> [] \<and> tile_x t = targetX t \<and> tile_y t = targetY t"
  by (induction rows arbitrary: r k) (auto simp: Let_def)


lemma min_split_rows:
  fixes c S len k :: nat
  shows "min c (len - k) + min S (len - (k + min c (len - k))) = min (c + S) (len - k)"
  unfolding min_def by (cases "c \<le> len - k") (simp_all, arith+)

lemma layoutRows_idIndex:
  "map (\<lambda>t. idIndex (tile_id t)) (layoutRows letters w y0 rows r k)
     = [k..<k + min (sum_list rows) (length letters - k)]"
proof (induction rows arbitrary: r k)
  case Nil
  then show ?case by simp
next
  case (Cons c rows)
  define n where "n = min c (length letters - k)"
  define m where "m = min (sum_list rows) (length letters - (k + n))"
  have unfold: "layoutRows letters w y0 (c # rows) r k
      = map (\<lambda>col. newTile (letters ! (k + col)) (k + col) (poolX w c col) (poolY y0 r)) [0..<n]
        @ layoutRows letters w y0 rows (Suc r) (k + n)"
    by (simp add: Let_def n_def)
  have first: "map (\<lambda>t. idIndex (tile_id t))
      (map (\<lambda>col. newTile (letters ! (k + col)) (k + col) (poolX w c col) (poolY y0 r)) [0..<n])
      = [k..<k + n]"
    by (induct n) (simp_all add: o_def)
  have rest: "map (\<lambda>t. idIndex (tile_id t)) (layoutRows letters w y0 rows (Suc r) (k + n))
      = [k + n..<k + n + m]"
    unfolding m_def by (rule Cons.IH)
  have b: "n + m = min (sum_list (c # rows)) (length letters - k)"
    unfolding n_def m_def using min_split_rows [of c "length letters" k "sum_list rows"] by simp
  have "map (\<lambda>t. idIndex (tile_id t)) (layoutRows letters w y0 (c # rows) r k)
      = [k..<k + n] @ [k + n..<k + n + m]"
    by (simp only: unfold map_append first rest)
  also have "\<dots> = [k..<k + n + m]"
    by (rule upt_add_eq_append [symmetric]) simp
  also have "\<dots> = [k..<k + min (sum_list (c # rows)) (length letters - k)]"
    by (simp only: add.assoc b)
  finally show ?case .
qed

lemma layoutRows_distinct_ids: "distinct (map tile_id (layoutRows letters w y0 rows r k))"
proof -
  have "distinct (map idIndex (map tile_id (layoutRows letters w y0 rows r k)))"
    by (simp add: o_def layoutRows_idIndex)
  then show ?thesis by (rule distinct_map [THEN iffD1, THEN conjunct1])
qed


lemma layoutRows_chars:
  "map tile_char (layoutRows letters w y0 rows r k) = take (sum_list rows) (drop k letters)"
proof (induction rows arbitrary: r k)
  case Nil
  then show ?case by simp
next
  case (Cons c rows)
  define n where "n = min c (length letters - k)"
  have a: "map (\<lambda>col. letters ! (k + col)) [0..<n] = take c (drop k letters)"
    by (rule nth_equalityI) (auto simp: n_def)
  have b: "drop (k + n) letters = drop c (drop k letters)"
    by (cases "c \<le> length letters - k") (simp_all add: n_def add.commute)
  have "take (c + sum_list rows) (drop k letters)
          = take c (drop k letters) @ take (sum_list rows) (drop c (drop k letters))"
    by (rule take_add)
  with Cons [of "Suc r" "k + n"] a b show ?case
    by (simp add: Let_def n_def [symmetric] o_def)
qed

subsection \<open>Fields that frames and scrambles leave alone\<close>


lemma fixedField_tile_id [simp]: "fixedField tile_id"
  by (simp add: fixedField_def)

lemma fixedField_tile_char [simp]: "fixedField tile_char"
  by (simp add: fixedField_def)

lemma fixedField_placeInSlot: "fixedField f \<Longrightarrow> f (placeInSlot sx k t) = f t"
  by (simp add: fixedField_def placeInSlot_def)

lemma fixedField_settleTile: "fixedField f \<Longrightarrow> f (settleTile t) = f t"
  by (simp add: fixedField_def settleTile_def)

lemma dropTile_fixed: "fixedField f \<Longrightarrow> map f (tiles (dropTile i s)) = map f (tiles s)"
  by (rule dropTile_map_keep) (simp_all add: fixedField_placeInSlot, simp_all add: fixedField_def)

lemma grabOrMove_fixed: "fixedField f \<Longrightarrow> map f (tiles (grabOrMove hp s)) = map f (tiles s)"
  by (simp add: grabOrMove_def fixedField_def map_update map_update_same split: option.split)

lemma releaseActive_tiles:
  "tiles (releaseActive s) =
     (case findIndex (\<lambda>t. Some (tile_id t) = activeTileId s) (tiles s) of
        None \<Rightarrow> tiles s | Some i \<Rightarrow> tiles (dropTile i s))"
  by (simp add: releaseActive_def split: option.split)

lemma releaseActive_fixed: "fixedField f \<Longrightarrow> map f (tiles (releaseActive s)) = map f (tiles s)"
  by (simp add: releaseActive_tiles dropTile_fixed split: option.split)


lemma settle_fixed: "fixedField f \<Longrightarrow> map f (tiles (settle s)) = map f (tiles s)"
  by (simp add: settle_def fixedField_settleTile o_def)

lemma trackHand_keeps:
  "trackHand results s = (hp, raw, s1) \<Longrightarrow>
     tiles s1 = tiles s \<and> activeTileId s1 = activeTileId s \<and> isCorrect s1 = isCorrect s \<and>
     currentWord s1 = currentWord s"
  by (auto simp: trackHand_def Let_def split: option.splits)

lemma grabConfirm_keeps [simp]:
  "tiles (grabConfirm raw s) = tiles s" "activeTileId (grabConfirm raw s) = activeTileId s"
  "isCorrect (grabConfirm raw s) = isCorrect s" "currentWord (grabConfirm raw s) = currentWord s"
  by (simp_all add: grabConfirm_def Let_def)

lemma onResults_shape:
  "\<exists>hp p s2. onResults results s = settle (dragController hp p s2) \<and>
     tiles s2 = tiles s \<and> activeTileId s2 = activeTileId s \<and> isCorrect s2 = isCorrect s \<and>
     currentWord s2 = currentWord s"
proof -
  obtain hp raw s1 where t: "trackHand results s = (hp, raw, s1)"
    using prod_cases3 by blast
  show ?thesis
    apply (simp add: onResults_def t Let_def)
    apply (rule exI [of _ hp], rule exI [of _ "effectivePinch raw (grabConfirm raw s1)"],
        rule exI [of _ "grabConfirm raw s1"])
    using trackHand_keeps [OF t] apply simp
    done
qed

lemma onResultsSimple_shape:
  "\<exists>hp p. onResultsSimple results s = settle (dragController hp p s)"
  by (cases results) (auto simp: onResultsSimple_def)




lemma retarget_fold_keeps:
  assumes "\<And>t a b. f (t\<lparr>targetX := a, targetY := b\<rparr>) = f t"
  shows "map f (fold (\<lambda>col ts. ts[k + col := (ts ! (k + col))\<lparr>targetX := px col, targetY := py\<rparr>]) cols ts)
       = map f ts"
  by (induction cols arbitrary: ts) (simp_all add: assms map_update map_update_same)

lemma retargetRows_keeps:
  assumes "\<And>t a b. f (t\<lparr>targetX := a, targetY := b\<rparr>) = f t"
  shows "map f (retargetRows ts w y0 rows r k) = map f ts"
proof (induction rows arbitrary: ts r k)
  case Nil
  then show ?case by (simp add: retargetRows.simps)
next
  case (Cons c rows)
  show ?case
    by (simp add: retargetRows.simps Let_def Cons.IH retarget_fold_keeps [of f, OF assms])
qed

lemma mset_map_partition:
  "mset (map f (filter (\<lambda>t. \<not> P t) xs)) + mset (map f (filter P xs)) = mset (map f xs)"
  by (induction xs) simp_all

lemma mset_map_shuffle: "mset (map f (shuffleArray rnd xs)) = mset (map f xs)"
  by simp

lemma scramblePool_mset:
  assumes "\<And>t a b. f (t\<lparr>targetX := a, targetY := b\<rparr>) = f t"
  shows "mset (map f (tiles (scramblePool rnd s))) = mset (map f (tiles s))"
proof -
  have "mset (map f (tiles (scramblePool rnd s)))
          = mset (map f (shuffleArray rnd (filter (\<lambda>t. \<not> inTray t) (tiles s))))
            + mset (map f (filter inTray (tiles s)))"
    by (simp add: scramblePool_def Let_def retargetRows_keeps [of f, OF assms] del: mset_map)
  also have "\<dots> = mset (map f (filter (\<lambda>t. \<not> inTray t) (tiles s)))
                     + mset (map f (filter inTray (tiles s)))"
    by (simp only: mset_map_shuffle)
  also have "\<dots> = mset (map f (tiles s))"
    by (rule mset_map_partition)
  finally show ?thesis .
qed

subsection \<open>The invariant of the drag controller\<close>



lemma dragInv_nth:
  "dragInv s \<longleftrightarrow>
     distinct (map tile_id (tiles s)) \<and>
     (\<forall>j<length (tiles s). tile_id (tiles s ! j) \<noteq> [] \<and>
        (isDragging (tiles s ! j) \<longrightarrow> activeTileId s = Some (tile_id (tiles s ! j))))"
  unfolding dragInv_def by (simp add: all_set_conv_all_nth)

lemma distinct_map_nth_eq:
  "distinct (map f xs) \<Longrightarrow> i < length xs \<Longrightarrow> j < length xs \<Longrightarrow> f (xs ! j) = f (xs ! i) \<Longrightarrow> j = i"
  using nth_eq_iff_index_eq [of "map f xs" j i] by simp

lemma dragInv_truthy:
  "dragInv s \<Longrightarrow> t \<in> set (tiles s) \<Longrightarrow> isDragging t \<Longrightarrow> truthy (activeTileId s)"
  by (auto simp: dragInv_def)

lemma dragInv_idle:
  assumes "distinct (map tile_id ts)" and "\<forall>t\<in>set ts. tile_id t \<noteq> [] \<and> \<not> isDragging t"
    and "tiles s = ts"
  shows "dragInv s"
  using assms by (auto simp: dragInv_def)

lemma grabOrMove_dragInv:
  assumes inv: "dragInv s"
  shows "dragInv (grabOrMove hp s)"
proof (cases "truthy (activeTileId s)")
  case False
  show ?thesis
  proof (cases "findIndex (hitTest hp) (tiles s)")
    case None
    with False inv show ?thesis by (simp add: grabOrMove_def)
  next
    case (Some i)
    from findIndex_Some [OF Some] have i: "i < length (tiles s)" by simp
    let ?u = "(tiles s ! i)\<lparr>isDragging := True\<rparr>"
    have g: "grabOrMove hp s = s\<lparr>activeTileId := Some (tile_id (tiles s ! i)),
               tiles := (tiles s)[i := ?u], sounds := sounds s @ [Click]\<rparr>"
      using False Some by (simp add: grabOrMove_def)
    have ids: "map tile_id ((tiles s)[i := ?u]) = map tile_id (tiles s)"
      by (simp add: map_update map_update_same)
    have mem: "t = ?u \<or> t \<in> set (tiles s)" if "t \<in> set ((tiles s)[i := ?u])" for t
      using that set_update_subset_insert [of "tiles s" i ?u] by auto
    have old: "tile_id t \<noteq> [] \<and> \<not> isDragging t" if "t \<in> set (tiles s)" for t
      using that inv False dragInv_truthy [OF inv that] by (auto simp: dragInv_def)
    have ne: "tile_id (tiles s ! i) \<noteq> []"
      using old [of "tiles s ! i"] i by simp
    have all: "tile_id t \<noteq> [] \<and> (isDragging t \<longrightarrow> tile_id (tiles s ! i) = tile_id t)"
      if "t \<in> set ((tiles s)[i := ?u])" for t
      using mem [OF that] old [of t] ne by auto
    have d: "distinct (map tile_id (tiles s))" using inv by (simp add: dragInv_def)
    show ?thesis
      unfolding g dragInv_def using d all by (simp add: ids)
  qed
next
  case True
  show ?thesis
  proof (cases "findIndex (\<lambda>t. Some (tile_id t) = activeTileId s) (tiles s)")
    case None
    with True inv show ?thesis by (simp add: grabOrMove_def)
  next
    case (Some i)
    from findIndex_Some [OF Some] have i: "i < length (tiles s)" by simp
    let ?u = "(tiles s ! i)\<lparr>tile_x := pt_x hp, tile_y := pt_y hp\<rparr>"
    have g: "grabOrMove hp s = s\<lparr>tiles := (tiles s)[i := ?u]\<rparr>"
      using True Some by (simp add: grabOrMove_def)
    have ids: "map tile_id ((tiles s)[i := ?u]) = map tile_id (tiles s)"
      by (simp add: map_update map_update_same)
    have mem: "t = ?u \<or> t \<in> set (tiles s)" if "t \<in> set ((tiles s)[i := ?u])" for t
      using that set_update_subset_insert [of "tiles s" i ?u] by auto
    have ti: "tiles s ! i \<in> set (tiles s)" using i by simp
    have all: "tile_id t \<noteq> [] \<and> (isDragging t \<longrightarrow> activeTileId s = Some (tile_id t))"
      if "t \<in> set ((tiles s)[i := ?u])" for t
      using mem [OF that] inv ti by (auto simp: dragInv_def)
    have d: "distinct (map tile_id (tiles s))" using inv by (simp add: dragInv_def)
    show ?thesis
      unfolding g dragInv_def using d all by (simp add: ids)
  qed
qed

lemma updateTrayWord_dragInv [simp]: "dragInv (updateTrayWord s) = dragInv s"
  by (simp add: dragInv_def)

lemma releaseActive_dragInv:
  assumes inv: "dragInv s"
  shows "dragInv (releaseActive s)"
proof (cases "findIndex (\<lambda>t. Some (tile_id t) = activeTileId s) (tiles s)")
  case None
  then have "\<forall>t\<in>set (tiles s). Some (tile_id t) \<noteq> activeTileId s"
    by (simp add: findIndex_None)
  with inv have "\<forall>t\<in>set (tiles s). tile_id t \<noteq> [] \<and> \<not> isDragging t"
    by (auto simp: dragInv_def)
  moreover have "tiles (releaseActive s) = tiles s"
    using None by (simp add: releaseActive_tiles)
  ultimately show ?thesis
    using inv by (intro dragInv_idle [of "tiles s"]) (auto simp: dragInv_def)
next
  case (Some i)
  from findIndex_Some [OF Some] have i: "i < length (tiles s)"
    and a: "activeTileId s = Some (tile_id (tiles s ! i))" by simp_all
  let ?ts = "tiles (dropTile i s)"
  have tl: "tiles (releaseActive s) = ?ts"
    using Some by (simp add: releaseActive_tiles)
  have ids: "map tile_id ?ts = map tile_id (tiles s)" by simp
  have len: "length ?ts = length (tiles s)" by simp
  have d: "distinct (map tile_id (tiles s))" using inv by (simp add: dragInv_def)
  have idn: "tile_id (?ts ! j) = tile_id (tiles s ! j)" if "j < length (tiles s)" for j
    using nth_of_map_eq [OF ids, of j] that by simp
  have drg: "isDragging (?ts ! j) = (if j = i then False else isDragging (tiles s ! j))"
    if "j < length (tiles s)" for j
    using nth_of_map_eq [OF dropTile_isDragging, of j i s] that by (simp add: nth_list_update)
  have "tile_id (?ts ! j) \<noteq> [] \<and> \<not> isDragging (?ts ! j)" if j: "j < length (tiles s)" for j
  proof (cases "j = i")
    case True
    with inv j show ?thesis by (simp add: dragInv_nth idn drg)
  next
    case False
    have "\<not> isDragging (tiles s ! j)"
    proof
      assume "isDragging (tiles s ! j)"
      with inv j have "activeTileId s = Some (tile_id (tiles s ! j))"
        by (simp add: dragInv_nth)
      with a have "tile_id (tiles s ! j) = tile_id (tiles s ! i)"
        by simp
      with d i j have "j = i"
        by (rule distinct_map_nth_eq [OF _ _ _])
      with False show False ..
    qed
    with inv j False show ?thesis by (simp add: dragInv_nth idn drg)
  qed
  then have "\<forall>t\<in>set ?ts. tile_id t \<noteq> [] \<and> \<not> isDragging t"
    by (simp add: all_set_conv_all_nth)
  moreover have "distinct (map tile_id ?ts)" using d by simp
  ultimately show ?thesis
    using tl by (intro dragInv_idle [of ?ts]) auto
qed

lemma dragController_dragInv: "dragInv s \<Longrightarrow> dragInv (dragController hp p s)"
  by (simp add: dragController_def grabOrMove_dragInv releaseActive_dragInv)

lemma settle_dragInv:
  assumes inv: "dragInv s"
  shows "dragInv (settle s)"
proof -
  have ids: "map tile_id (tiles (settle s)) = map tile_id (tiles s)"
    by (rule settle_fixed) simp
  have "tile_id t \<noteq> [] \<and> (isDragging t \<longrightarrow> activeTileId s = Some (tile_id t))"
    if "t \<in> set (tiles (settle s))" for t
  proof -
    from that obtain u where u: "u \<in> set (tiles s)" "t = settleTile u"
      by (auto simp: settle_def)
    with inv show ?thesis by (simp add: dragInv_def)
  qed
  then show ?thesis
    using inv unfolding dragInv_def by (simp add: ids)
qed

lemma dragInv_cong:
  "tiles s' = tiles s \<Longrightarrow> activeTileId s' = activeTileId s \<Longrightarrow> dragInv s' = dragInv s"
  by (simp add: dragInv_def)

lemma onResults_dragInv: "dragInv s \<Longrightarrow> dragInv (onResults results s)"
proof -
  assume inv: "dragInv s"
  obtain hp p s2 where e: "onResults results s = settle (dragController hp p s2)"
    and k: "tiles s2 = tiles s" "activeTileId s2 = activeTileId s"
    using onResults_shape [of results s] by blast
  from inv have "dragInv s2" by (simp only: dragInv_cong [OF k])
  then show ?thesis
    unfolding e by (intro settle_dragInv dragController_dragInv)
qed

lemma onResultsSimple_dragInv: "dragInv s \<Longrightarrow> dragInv (onResultsSimple results s)"
proof -
  assume inv: "dragInv s"
  obtain hp p where e: "onResultsSimple results s = settle (dragController hp p s)"
    using onResultsSimple_shape [of results s] by blast
  show ?thesis
    unfolding e by (intro settle_dragInv dragController_dragInv) (rule inv)
qed

lemma layoutRows_dragInv:
  assumes "tiles s = layoutRows letters w y0 rows r k"
  shows "dragInv s"
proof (rule dragInv_idle [OF layoutRows_distinct_ids _ assms])
  show "\<forall>t\<in>set (layoutRows letters w y0 rows r k). tile_id t \<noteq> [] \<and> \<not> isDragging t"
    using layoutRows_fresh by blast
qed

lemma initPool_dragInv: "tiles s = initPool rnd w h word \<Longrightarrow> dragInv s"
  unfolding initPool_def Let_def by (rule layoutRows_dragInv)

lemma initPoolSimple_dragInv: "tiles s = initPoolSimple rnd w h \<Longrightarrow> dragInv s"
  unfolding initPoolSimple_def Let_def by (rule layoutRows_dragInv)

lemma timerTick_keeps [simp]:
  "tiles (timerTick s) = tiles s" "activeTileId (timerTick s) = activeTileId s"
  "isCorrect (timerTick s) = isCorrect s" "currentWord (timerTick s) = currentWord s"
  by (simp_all add: timerTick_def Let_def)

lemma dragInv_pairs:
  "dragInv s \<longleftrightarrow>
     distinct (map tile_id (tiles s)) \<and>
     (\<forall>p\<in>set (map (\<lambda>t. (tile_id t, isDragging t)) (tiles s)).
        fst p \<noteq> [] \<and> (snd p \<longrightarrow> activeTileId s = Some (fst p)))"
  by (auto simp: dragInv_def)

lemma scramblePool_active [simp]:
  "activeTileId (scramblePool rnd s) = activeTileId s"
  "isCorrect (scramblePool rnd s) = isCorrect s"
  "currentWord (scramblePool rnd s) = currentWord s"
  by (simp_all add: scramblePool_def Let_def)

lemma scramblePool_dragInv:
  assumes inv: "dragInv s"
  shows "dragInv (scramblePool rnd s)"
proof -
  have m1: "mset (map tile_id (tiles (scramblePool rnd s))) = mset (map tile_id (tiles s))"
    by (rule scramblePool_mset) simp
  have m2: "mset (map (\<lambda>t. (tile_id t, isDragging t)) (tiles (scramblePool rnd s)))
            = mset (map (\<lambda>t. (tile_id t, isDragging t)) (tiles s))"
    by (rule scramblePool_mset) simp
  have d: "distinct (map tile_id (tiles (scramblePool rnd s))) = distinct (map tile_id (tiles s))"
    by (rule mset_eq_imp_distinct_iff [OF m1])
  have e: "set (map (\<lambda>t. (tile_id t, isDragging t)) (tiles (scramblePool rnd s)))
            = set (map (\<lambda>t. (tile_id t, isDragging t)) (tiles s))"
    by (rule mset_eq_setD [OF m2])
  show ?thesis
    using inv unfolding dragInv_pairs d e by simp
qed


lemma dragInv_at_most_one:
  assumes inv: "dragInv s"
  shows "length (filter isDragging (tiles s)) \<le> 1"
proof (cases "filter isDragging (tiles s)")
  case Nil
  then show ?thesis by simp
next
  case (Cons x xs)
  have d: "distinct (map tile_id (filter isDragging (tiles s)))"
    using inv by (simp add: dragInv_def distinct_map_filter)
  have a: "activeTileId s = Some (tile_id t)" if "t \<in> set (filter isDragging (tiles s))" for t
    using inv that by (simp add: dragInv_def)
  show ?thesis
  proof (cases xs)
    case Nil
    with Cons show ?thesis by simp
  next
    case (Cons y ys)
    with \<open>filter isDragging (tiles s) = x # xs\<close> have f: "filter isDragging (tiles s) = x # y # ys"
      by simp
    from a [of x] a [of y] have "tile_id x = tile_id y" by (simp add: f)
    with d show ?thesis by (simp add: f)
  qed
qed

lemma nextWord_tiles [simp]:
  "tiles (nextWord w rnd s) = initPool rnd (canvasWidth s) (canvasHeight s) w"
  "tiles (nextWordSimple w rnd s) = initPoolSimple rnd (canvasWidth s) (canvasHeight s)"
  by (simp_all add: nextWord_def nextWordSimple_def startTimer_def)

lemma resize_dragInv: "dragInv s \<Longrightarrow> dragInv (resize w h rnd s)"
proof (cases "length (tiles s) = 0")
  case True
  then have "tiles (resize w h rnd s) = initPool rnd w h (currentWord s)"
    by (simp add: resize_def Let_def)
  then show ?thesis by (rule initPool_dragInv)
next
  case False
  assume "dragInv s"
  with False show ?thesis by (simp add: resize_def Let_def dragInv_def)
qed

lemma resizeSimple_dragInv: "dragInv s \<Longrightarrow> dragInv (resizeSimple w h rnd s)"
proof (cases "length (tiles s) = 0")
  case True
  then have "tiles (resizeSimple w h rnd s) = initPoolSimple rnd w h"
    by (simp add: resizeSimple_def Let_def)
  then show ?thesis by (rule initPoolSimple_dragInv)
next
  case False
  assume "dragInv s"
  with False show ?thesis by (simp add: resizeSimple_def Let_def dragInv_def)
qed

lemma timerTick_dragInv: "dragInv s \<Longrightarrow> dragInv (timerTick s)"
  by (simp add: dragInv_def)

lemma handle_dragInv: "dragInv s \<Longrightarrow> dragInv (handle e s)"
proof (cases e)
  case (Frame results)
  assume "dragInv s"
  then show ?thesis unfolding Frame handle.simps by (rule onResults_dragInv)
next
  case (NextWord w rnd)
  show ?thesis unfolding NextWord handle.simps by (rule initPool_dragInv) (rule nextWord_tiles)
next
  case (SetDifficulty d w rnd)
  show ?thesis unfolding SetDifficulty handle.simps by (rule initPool_dragInv) (rule nextWord_tiles)
next
  case (ResetGame w rnd)
  show ?thesis unfolding ResetGame handle.simps by (rule initPool_dragInv) (rule nextWord_tiles)
next
  case TimerTick
  assume "dragInv s"
  then show ?thesis unfolding TimerTick handle.simps by (rule timerTick_dragInv)
next
  case (Resize w h rnd)
  assume "dragInv s"
  then show ?thesis unfolding Resize handle.simps by (rule resize_dragInv)
next
  case (Scramble rnd)
  assume "dragInv s"
  then show ?thesis unfolding Scramble handle.simps .
next
  case ToggleSound
  assume "dragInv s"
  then show ?thesis unfolding ToggleSound handle.simps .
qed

lemma handleSimple_dragInv: "dragInv s \<Longrightarrow> dragInv (handleSimple e s)"
proof (cases e)
  case (Frame results)
  assume "dragInv s"
  then show ?thesis unfolding Frame handleSimple.simps by (rule onResultsSimple_dragInv)
next
  case (NextWord w rnd)
  show ?thesis unfolding NextWord handleSimple.simps by (rule initPoolSimple_dragInv) (rule nextWord_tiles)
next
  case (SetDifficulty d w rnd)
  show ?thesis unfolding SetDifficulty handleSimple.simps by (rule initPoolSimple_dragInv) (rule nextWord_tiles)
next
  case (ResetGame w rnd)
  show ?thesis unfolding ResetGame handleSimple.simps by (rule initPoolSimple_dragInv) (rule nextWord_tiles)
next
  case TimerTick
  assume "dragInv s"
  then show ?thesis unfolding TimerTick handleSimple.simps by (rule timerTick_dragInv)
next
  case (Resize w h rnd)
  assume "dragInv s"
  then show ?thesis unfolding Resize handleSimple.simps by (rule resizeSimple_dragInv)
next
  case (Scramble rnd)
  assume "dragInv s"
  then show ?thesis unfolding Scramble handleSimple.simps by (simp add: scramblePool_dragInv)
next
  case ToggleSound
  assume "dragInv s"
  then show ?thesis unfolding ToggleSound handleSimple.simps .
qed

lemma render_tiles [simp]:
  "tiles (render e before after) = tiles after"
  "activeTileId (render e before after) = activeTileId after"
  "currentWord (render e before after) = currentWord after"
  "isCorrect (render e before after) = isCorrect after"
  "score (render e before after) = score after"
  "timeLeft (render e before after) = timeLeft after"
  "difficulty (render e before after) = difficulty after"
  "canvasWidth (render e before after) = canvasWidth after"
  "canvasHeight (render e before after) = canvasHeight after"
  "timerRunning (render e before after) = timerRunning after"
  "sounds (render e before after) = sounds after"
  by (simp_all add: render_def installEffect_def)

lemma render_dragInv [simp]: "dragInv (render e before after) = dragInv after"
  by (simp add: dragInv_def)

lemma step_dragInv: "dragInv s \<Longrightarrow> dragInv (step e s)"
  by (simp add: step_def handle_dragInv)

lemma stepSimple_dragInv: "dragInv s \<Longrightarrow> dragInv (stepSimple e s)"
  by (simp add: stepSimple_def handleSimple_dragInv)

lemma fold_step_dragInv: "dragInv s \<Longrightarrow> dragInv (fold step evs s)"
  by (induction evs arbitrary: s) (simp_all add: step_dragInv)

lemma fold_stepSimple_dragInv: "dragInv s \<Longrightarrow> dragInv (fold stepSimple evs s)"
  by (induction evs arbitrary: s) (simp_all add: stepSimple_dragInv)

lemma initialState_dragInv: "dragInv initialState"
  by (simp add: dragInv_def initialState_def)

lemma run_dragInv: "dragInv (run evs)" "dragInv (runSimple evs)"
  by (simp_all add: run_def runSimple_def fold_step_dragInv fold_stepSimple_dragInv
        initialState_dragInv)



lemma settleTile_at_rest:
  "tile_x t = targetX t \<Longrightarrow> tile_y t = targetY t \<Longrightarrow> settleTile t = t"
  by (simp add: settleTile_def)

lemma findIndex_first: "ts \<noteq> [] \<Longrightarrow> P (ts ! 0) \<Longrightarrow> findIndex P ts = Some 0"
  by (cases ts) simp_all

lemma length_alphabet: "length alphabet = 26"
  by (simp add: alphabet_def)

lemma extraLetters_empty: "extraLetters [] = []"
  by (simp add: extraLetters_def wordLetterCounts_def toUpperCase_def objectEntries_def)

lemma poolRows_26: "poolRows 26 = [9, 9, 8]"
  by (simp add: poolRows.simps)

lemma first_pool_tile:
  "initPool rnd 1280 720 [] \<noteq> [] \<and>
   tile_x (initPool rnd 1280 720 [] ! 0) = 289 \<and> tile_y (initPool rnd 1280 720 [] ! 0) = 446"
  by (simp add: initPool_def Let_def extraLetters_empty length_alphabet poolRows_26 upt_rec
        poolX_def poolY_def TILE_SIZE_def POOL_SPACING_def)

lemma pool_at_rest: "map settleTile (initPool rnd w h word) = initPool rnd w h word"
  unfolding initPool_def Let_def
  by (rule map_idI) (auto dest!: layoutRows_fresh intro: settleTile_at_rest)


text \<open>
  Claim C6. After any sequence of events from the mounted screen (tracking frames, new
  rounds that replace the pool at any moment, also in the middle of a drag, changes of
  difficulty, restarts, timer ticks, resizes and, on the simpler screen, scrambles) at
  most one tile of the pool has \<^verbatim>\<open>isDragging\<close> set, and a tile that has it set has
  the id held in \<^verbatim>\<open>activeTileId\<close>. This holds on both screens.
\<close>

theorem at_most_one_tile_dragging:
  "length (filter isDragging (tiles (run evs))) \<le> 1 \<and>
   (\<forall>t\<in>set (tiles (run evs)). isDragging t \<longrightarrow> activeTileId (run evs) = Some (tile_id t)) \<and>
   length (filter isDragging (tiles (runSimple evs))) \<le> 1 \<and>
   (\<forall>t\<in>set (tiles (runSimple evs)).
      isDragging t \<longrightarrow> activeTileId (runSimple evs) = Some (tile_id t))"
  using run_dragInv [of evs] dragInv_at_most_one [of "run evs"]
    dragInv_at_most_one [of "runSimple evs"]
  by (simp add: dragInv_def)

theorem at_most_one_tile_dragging_witness:
  "tiles (run grabSession) ! 0 \<in> set (tiles (run grabSession)) \<and>
   isDragging (tiles (run grabSession) ! 0) \<and>
   activeTileId (run grabSession) = Some (tile_id (tiles (run grabSession) ! 0)) \<and>
   length (filter isDragging (tiles (run grabSession))) = 1"
proof -
  define P where "P = initPool (\<lambda>i. i) 1280 720 []"
  define s1 where "s1 = initialState\<lparr>canvasWidth := 1280, canvasHeight := 720, tiles := P\<rparr>"
  define sm1 where "sm1 = \<lparr>pt_x = 187.2, pt_y = 291.6\<rparr>"
  define sm2 where "sm2 = \<lparr>pt_x = 290.16, pt_y = 451.98\<rparr>"
  have P0: "P \<noteq> []" "tile_x (P ! 0) = 289" "tile_y (P ! 0) = 446"
    using first_pool_tile [of "\<lambda>i. i"] by (simp_all add: P_def)
  have rest: "map settleTile P = P"
    unfolding P_def by (rule pool_at_rest)
  have d0: "pinchDistance grabHand = 0"
    by (simp add: pinchDistance_def grabHand_def)
  have raw: "rawCursor 1280 720 grabHand = \<lparr>pt_x = 416, pt_y = 648\<rparr>"
    by (simp add: rawCursor_def grabHand_def Let_def)
  have ss1: "smoothStep \<lparr>pt_x = 0, pt_y = 0\<rparr> \<lparr>pt_x = 416, pt_y = 648\<rparr> = sm1"
    by (simp add: smoothStep_def HAND_SMOOTH_def sm1_def)
  have ss2: "smoothStep sm1 \<lparr>pt_x = 416, pt_y = 648\<rparr> = sm2"
    by (simp add: smoothStep_def HAND_SMOOTH_def sm1_def sm2_def)
  have r0: "resize 1280 720 (\<lambda>i. i) initialState = s1"
    by (simp add: resize_def Let_def s1_def P_def initialState_def)
  have k1: "currentWord s1 = currentWord initialState" "isCorrect s1 = isCorrect initialState"
    by (simp_all add: s1_def)
  have f1: "onResults (Some grabHand) s1 = s1\<lparr>smoothHandPos := sm1, pinchFrames := Suc 0\<rparr>"
    by (simp add: onResults_def trackHand_def rawPinch_def d0 raw grabConfirm_def effectivePinch_def
          dragController_def settle_def rest ss1
          PINCH_GRAB_THRESHOLD_def GRAB_CONFIRM_FRAMES_def Let_def s1_def initialState_def)
  have hit: "hitTest sm2 (P ! 0)"
    by (simp add: hitTest_def P0 sm2_def TILE_SIZE_def)
  have fi: "findIndex (hitTest sm2) P = Some 0"
    using P0(1) hit by (rule findIndex_first)
  have f2: "onResults (Some grabHand) (s1\<lparr>smoothHandPos := sm1, pinchFrames := Suc 0\<rparr>)
      = settle (s1\<lparr>smoothHandPos := sm2, pinchFrames := 2, pinchConfirmed := True,
                   activeTileId := Some (tile_id (P ! 0)),
                   tiles := P[0 := (P ! 0)\<lparr>isDragging := True\<rparr>],
                   sounds := [Click]\<rparr>)"
    by (simp add: onResults_def trackHand_def rawPinch_def d0 raw grabConfirm_def effectivePinch_def
          dragController_def grabOrMove_def fi ss2 numeral_2_eq_2
          PINCH_GRAB_THRESHOLD_def GRAB_CONFIRM_FRAMES_def Let_def s1_def initialState_def)
  have run: "run grabSession = settle (s1\<lparr>smoothHandPos := sm2, pinchFrames := 2,
                   pinchConfirmed := True, activeTileId := Some (tile_id (P ! 0)),
                   tiles := P[0 := (P ! 0)\<lparr>isDragging := True\<rparr>], sounds := [Click]\<rparr>)"
    by (simp add: run_def grabSession_def step_def render_def r0 k1 f1 f2)
  have len: "0 < length (tiles (run grabSession))"
    using P0(1) by (simp add: run)
  then have mem: "tiles (run grabSession) ! 0 \<in> set (tiles (run grabSession))"
    by (rule nth_mem)
  have drg: "isDragging (tiles (run grabSession) ! 0)"
    using P0(1) by (simp add: run)
  note t = at_most_one_tile_dragging [of grabSession]
  from t mem drg have act: "activeTileId (run grabSession) = Some (tile_id (tiles (run grabSession) ! 0))"
    by blast
  from mem drg have "tiles (run grabSession) ! 0 \<in> set (filter isDragging (tiles (run grabSession)))"
    by simp
  then have "0 < length (filter isDragging (tiles (run grabSession)))"
    by (rule length_pos_if_in_set)
  with t have one: "length (filter isDragging (tiles (run grabSession))) = 1"
    by linarith
  show ?thesis
    using mem drg act one by blast
qed


subsection \<open>The letters of the simpler screen\<close>


lemma distinct_concat_singletons:
  "singleLetters cs \<Longrightarrow> distinct (concat cs)"
proof (induction cs)
  case Nil
  then show ?case by simp
next
  case (Cons x cs)
  from Cons.prems obtain c where x: "x = [c]"
    by (auto simp: singleLetters_def length_Suc_conv)
  from Cons.prems have rest: "singleLetters cs" and nx: "x \<notin> set cs"
    by (simp_all add: singleLetters_def)
  have "c \<notin> set (concat cs)"
  proof
    assume "c \<in> set (concat cs)"
    then obtain y where y: "y \<in> set cs" "c \<in> set y" by auto
    with rest obtain d where "y = [d]"
      by (auto simp: singleLetters_def length_Suc_conv)
    with y x nx show False by simp
  qed
  with Cons.IH [OF rest] x show ?case by simp
qed

lemma singleLetters_mset:
  "mset cs' = mset cs \<Longrightarrow> singleLetters cs' = singleLetters cs"
  unfolding singleLetters_def
  using mset_eq_imp_distinct_iff [of cs' cs] mset_eq_setD [of cs' cs] by simp

lemma singleLetters_tray:
  assumes "singleLetters (map tile_char ts)"
  shows "singleLetters (map tile_char (trayTilesSorted ts))"
proof -
  have "singleLetters (map tile_char (filter inTray ts))"
    using assms by (auto simp: singleLetters_def distinct_map_filter)
  moreover have "mset (map tile_char (trayTilesSorted ts)) = mset (map tile_char (filter inTray ts))"
    by (simp add: trayTilesSorted_def)
  then have "singleLetters (map tile_char (trayTilesSorted ts))
               = singleLetters (map tile_char (filter inTray ts))"
    by (rule singleLetters_mset)
  ultimately show ?thesis
    by simp
qed

lemma trayWordOf_distinct:
  "singleLetters (map tile_char ts) \<Longrightarrow> distinct (trayWordOf ts)"
  unfolding trayWordOf_def by (intro distinct_concat_singletons singleLetters_tray)

lemma releaseActive_word [simp]: "currentWord (releaseActive s) = currentWord s"
  by (simp add: releaseActive_def split: option.split)

lemma releaseActive_isCorrect:
  "isCorrect (releaseActive s) \<longleftrightarrow>
     trayWordOf (tiles (releaseActive s)) = currentWord s \<and> trayWordOf (tiles (releaseActive s)) \<noteq> []"
  by (simp add: releaseActive_def updateTrayWord_isCorrect split: option.split)

lemma grabOrMove_word [simp]:
  "currentWord (grabOrMove hp s) = currentWord s" "isCorrect (grabOrMove hp s) = isCorrect s"
  by (simp_all add: grabOrMove_def split: option.split)

lemma releaseActive_letterInv:
  assumes "letterInv s"
  shows "letterInv (releaseActive s)"
proof -
  have c: "map tile_char (tiles (releaseActive s)) = map tile_char (tiles s)"
    by (rule releaseActive_fixed) simp
  with assms have l: "singleLetters (map tile_char (tiles (releaseActive s)))"
    by (simp add: letterInv_def)
  from trayWordOf_distinct [OF l] l show ?thesis
    by (auto simp: letterInv_def releaseActive_isCorrect)
qed

lemma grabOrMove_letterInv: "letterInv s \<Longrightarrow> letterInv (grabOrMove hp s)"
  by (simp add: letterInv_def grabOrMove_fixed)

lemma dragController_letterInv: "letterInv s \<Longrightarrow> letterInv (dragController hp p s)"
  by (simp add: dragController_def grabOrMove_letterInv releaseActive_letterInv)

lemma settle_letterInv: "letterInv s \<Longrightarrow> letterInv (settle s)"
  by (simp add: letterInv_def settle_fixed)

lemma onResultsSimple_letterInv:
  assumes inv: "letterInv s"
  shows "letterInv (onResultsSimple results s)"
proof -
  obtain hp p where e: "onResultsSimple results s = settle (dragController hp p s)"
    using onResultsSimple_shape [of results s] by blast
  show ?thesis
    unfolding e by (intro settle_letterInv dragController_letterInv) (rule inv)
qed

lemma singleLetters_alphabet: "singleLetters alphabet"
  by code_simp

lemma initPoolSimple_chars:
  "map tile_char (initPoolSimple rnd w h) = shuffleArray rnd alphabet"
proof -
  have "map tile_char (initPoolSimple rnd w h)
          = take (sum_list [9, 9, 8]) (drop 0 (shuffleArray rnd alphabet))"
    unfolding initPoolSimple_def Let_def by (rule layoutRows_chars)
  then show ?thesis by (simp add: length_alphabet)
qed

lemma initPoolSimple_letters: "singleLetters (map tile_char (initPoolSimple rnd w h))"
  using singleLetters_mset [of "shuffleArray rnd alphabet" alphabet] singleLetters_alphabet
  by (simp add: initPoolSimple_chars)

lemma nextWordSimple_fields [simp]:
  "currentWord (nextWordSimple w rnd s) = w" "\<not> isCorrect (nextWordSimple w rnd s)"
  by (simp_all add: nextWordSimple_def startTimer_def)

lemma nextWordSimple_letterInv: "letterInv (nextWordSimple w rnd s)"
  by (simp add: letterInv_def initPoolSimple_letters)

lemma resizeSimple_letterInv: "letterInv s \<Longrightarrow> letterInv (resizeSimple w h rnd s)"
  by (simp add: resizeSimple_def Let_def letterInv_def initPoolSimple_letters)

lemma timerTick_letterInv: "letterInv s \<Longrightarrow> letterInv (timerTick s)"
  by (simp add: letterInv_def)

lemma scramblePool_letterInv:
  assumes "letterInv s"
  shows "letterInv (scramblePool rnd s)"
proof -
  have "mset (map tile_char (tiles (scramblePool rnd s))) = mset (map tile_char (tiles s))"
    by (rule scramblePool_mset) simp
  then have "singleLetters (map tile_char (tiles (scramblePool rnd s)))
               = singleLetters (map tile_char (tiles s))"
    by (rule singleLetters_mset)
  with assms show ?thesis by (simp add: letterInv_def)
qed

lemma render_letterInv [simp]: "letterInv (render e before after) = letterInv after"
  by (simp add: letterInv_def)

lemma stepSimple_letterInv: "letterInv s \<Longrightarrow> letterInv (stepSimple e s)"
  unfolding stepSimple_def render_letterInv
  by (cases e)
     (simp_all add: onResultsSimple_letterInv nextWordSimple_letterInv resizeSimple_letterInv
        timerTick_letterInv scramblePool_letterInv)

lemma fold_stepSimple_letterInv: "letterInv s \<Longrightarrow> letterInv (fold stepSimple evs s)"
  by (induction evs arbitrary: s) (simp_all add: stepSimple_letterInv)

lemma runSimple_letterInv: "letterInv (runSimple evs)"
  unfolding runSimple_def
  by (rule fold_stepSimple_letterInv) (simp add: letterInv_def singleLetters_def initialState_def)


text \<open>
  Claim C9. On the simpler screen the pool of a round does not depend on the target
  word: it has 26 tiles whose characters are the letters of the alphabet, each once. In
  every state reached by any sequence of events the tray word has pairwise distinct
  characters; so when the target word has a repeated letter, the tray word differs from
  it and the round is not marked solved.
\<close>

theorem simple_pool_cannot_spell_repeated_letters:
  "tiles (nextWordSimple word rnd s) = initPoolSimple rnd (canvasWidth s) (canvasHeight s) \<and>
   length (initPoolSimple rnd w h) = 26 \<and>
   mset (map tile_char (initPoolSimple rnd w h)) = mset alphabet \<and>
   distinct (map tile_char (initPoolSimple rnd w h)) \<and>
   distinct (trayWordOf (tiles (runSimple evs))) \<and>
   (\<not> distinct (currentWord (runSimple evs)) \<longrightarrow>
      trayWordOf (tiles (runSimple evs)) \<noteq> currentWord (runSimple evs) \<and>
      \<not> isCorrect (runSimple evs))"
proof -
  have len: "length (initPoolSimple rnd w h) = 26"
    using arg_cong [OF initPoolSimple_chars [of rnd w h], of length]
    by (simp add: length_alphabet)
  have d: "distinct (map tile_char (initPoolSimple rnd w h))"
    using initPoolSimple_letters [of rnd w h] by (simp add: singleLetters_def)
  have inv: "letterInv (runSimple evs)"
    by (rule runSimple_letterInv)
  then have t: "distinct (trayWordOf (tiles (runSimple evs)))"
    by (simp add: letterInv_def trayWordOf_distinct)
  have m: "mset (map tile_char (initPoolSimple rnd w h)) = mset alphabet"
    by (simp only: initPoolSimple_chars shuffleArray_mset)
  have p: "\<not> distinct (currentWord (runSimple evs)) \<longrightarrow>
      trayWordOf (tiles (runSimple evs)) \<noteq> currentWord (runSimple evs) \<and>
      \<not> isCorrect (runSimple evs)"
    using inv t by (auto simp: letterInv_def)
  show ?thesis
    by (intro conjI nextWord_tiles(2) len m d t p)
qed

theorem simple_pool_cannot_spell_repeated_letters_witness:
  "currentWord (runSimple cheetahSession) = ''CHEETAH'' \<and>
   \<not> distinct (currentWord (runSimple cheetahSession)) \<and>
   length (tiles (runSimple cheetahSession)) = 26 \<and>
   trayWordOf (tiles (runSimple cheetahSession)) \<noteq> ''CHEETAH'' \<and>
   \<not> isCorrect (runSimple cheetahSession)"
proof -
  have w: "currentWord (runSimple cheetahSession) = ''CHEETAH''"
    by (simp add: runSimple_def cheetahSession_def stepSimple_def)
  have n: "\<not> distinct (currentWord (runSimple cheetahSession))"
    by (simp add: w)
  have tl: "tiles (runSimple cheetahSession) = initPoolSimple (\<lambda>i. 7 * i + 3) 1280 720"
    by (simp add: runSimple_def cheetahSession_def stepSimple_def resizeSimple_def Let_def)
  note t = simple_pool_cannot_spell_repeated_letters
    [of "''CHEETAH''" "\<lambda>i. 7 * i + 3" initialState 1280 720 cheetahSession]
  from t n show ?thesis
    by (simp add: w tl)
qed


subsection \<open>Score\<close>

lemma timerTick_counting:
  "timerRunning s \<Longrightarrow> 5 < timeLeft s \<Longrightarrow> step TimerTick s = s\<lparr>timeLeft := timeLeft s - 1\<rparr>"
  by (simp add: step_def render_def timerTick_def Let_def)

lemma countdown:
  "timerRunning s \<Longrightarrow> int n + 5 < timeLeft s \<Longrightarrow>
     fold step (replicate n TimerTick) s = s\<lparr>timeLeft := timeLeft s - int n\<rparr>"
proof (induction n arbitrary: s)
  case 0
  then show ?case by simp
next
  case (Suc n)
  have t: "step TimerTick s = s\<lparr>timeLeft := timeLeft s - 1\<rparr>"
    using Suc.prems by (intro timerTick_counting) simp_all
  have "fold step (replicate n TimerTick) (s\<lparr>timeLeft := timeLeft s - 1\<rparr>)
          = s\<lparr>timeLeft := timeLeft s - 1\<rparr>\<lparr>timeLeft := timeLeft (s\<lparr>timeLeft := timeLeft s - 1\<rparr>) - int n\<rparr>"
    using Suc.prems by (intro Suc.IH) simp_all
  then show ?case
    by (simp add: t algebra_simps)
qed

text \<open>
  Claim C7 at the input where the code departs from it. The claim is that every solve
  adds the floor of the word length times 10 times the multiplier, plus the floor of
  the remaining seconds times the multiplier. A MEDIUM round on \<^verbatim>\<open>DOG\<close> was
  started with 30 seconds on the clock; \<^verbatim>\<open>D\<close> and \<^verbatim>\<open>O\<close> lie in the tray
  and \<^verbatim>\<open>G\<close> is held over it. The countdown ticks ten times, which leaves 20
  seconds and does not install \<^verbatim>\<open>onResults\<close> again, and then the hand opens.
  The round is solved with 20 seconds left, and the score grows by 90, which is
  45 plus the floor of 30 times 1.5: the seconds counted are those of the render that
  installed the callback. The amount of the claim is 75, and 75 is also what the
  \<^verbatim>\<open>Perfect!\<close> message shows for this solve.
\<close>

theorem solve_adds_time_of_installation:
  "difficulty dogRound = MEDIUM \<and> timeLeft dogRound = 30 \<and> closureTimeLeft dogRound = 30 \<and>
   score dogRound = 0 \<and>
   timeLeft (fold step (replicate 10 TimerTick) dogRound) = 20 \<and>
   timeLeft (fold step tenSecondsThenRelease dogRound) = 20 \<and>
   trayWord (fold step tenSecondsThenRelease dogRound) = ''DOG'' \<and>
   isCorrect (fold step tenSecondsThenRelease dogRound) \<and>
   score (fold step tenSecondsThenRelease dogRound) = 90 \<and>
   perfectMessagePoints (fold step tenSecondsThenRelease dogRound) = 75 \<and>
   \<lfloor>real (length ''DOG'') * 10 * multiplier MEDIUM\<rfloor> + \<lfloor>real_of_int 20 * multiplier MEDIUM\<rfloor> = 75"
proof -
  define s where "s = dogRound\<lparr>timeLeft := 20\<rparr>"
  have pre: "timerRunning dogRound" "int 10 + 5 < timeLeft dogRound"
    by (simp_all add: dogRound_def initialState_def)
  have ticks: "fold step (replicate 10 TimerTick) dogRound = s"
    using countdown [OF pre] by (simp add: s_def dogRound_def)
  have act: "truthy (activeTileId s)"
    by (simp add: s_def dogRound_def)
  have "\<not> pinchDistance openHand < PINCH_RELEASE_THRESHOLD"
    using pinchDistance_less [of PINCH_RELEASE_THRESHOLD openHand]
    by (simp add: PINCH_RELEASE_THRESHOLD_def openHand_def)
  then have raw: "rawPinch openHand s = False"
    using act by (simp add: rawPinch_def)
  have frame: "onResults (Some openHand) s =
      settle (releaseActive (s
        \<lparr>smoothHandPos := smoothStep (smoothHandPos s)
                            (rawCursor (canvasWidth s) (canvasHeight s) openHand),
         pinchFrames := 0\<rparr>))"
    using act
    by (simp add: onResults_def trackHand_def raw grabConfirm_def effectivePinch_def
          dragController_def Let_def)
  define s' where "s' = s\<lparr>smoothHandPos := smoothStep (smoothHandPos s)
                            (rawCursor (canvasWidth s) (canvasHeight s) openHand),
         pinchFrames := 0\<rparr>"
  define d where "d = (dropTile 2 s')\<lparr>activeTileId := None\<rparr>"
  have found: "findIndex (\<lambda>t. Some (tile_id t) = activeTileId s') (tiles s') = Some 2"
    by (simp add: s'_def s_def dogRound_def trayTile_def)
  have rel: "releaseActive s' = updateTrayWord d"
    unfolding d_def by (rule releaseActive_found [OF found])
  have word: "trayWordOf (tiles d) = ''DOG''"
    by (simp add: d_def dropTile_def trayWordOf_def trayTilesSorted_def trayKey_def
          placeInSlot_def s'_def s_def dogRound_def trayTile_def TRAY_Y_def Let_def)
  have k: "currentWord d = ''DOG''" "score d = 0" "timeLeft d = 20"
    "closureTimeLeft d = 30" "closureDifficulty d = MEDIUM" "difficulty d = MEDIUM"
    by (simp_all add: d_def dropTile_def s'_def s_def dogRound_def initialState_def Let_def)
  have upd: "timeLeft (updateTrayWord d) = 20 \<and> currentWord (updateTrayWord d) = ''DOG'' \<and>
             difficulty (updateTrayWord d) = MEDIUM \<and> trayWord (updateTrayWord d) = ''DOG'' \<and>
             isCorrect (updateTrayWord d) \<and> score (updateTrayWord d) = 90"
    by (simp add: updateTrayWord_def scoreDelta_def word k Let_def)
  have res: "timeLeft (onResults (Some openHand) s) = 20 \<and>
             currentWord (onResults (Some openHand) s) = ''DOG'' \<and>
             difficulty (onResults (Some openHand) s) = MEDIUM \<and>
             trayWord (onResults (Some openHand) s) = ''DOG'' \<and>
             isCorrect (onResults (Some openHand) s) \<and>
             score (onResults (Some openHand) s) = 90"
    using upd unfolding frame s'_def [symmetric] rel by (simp add: settle_def)
  have run: "fold step tenSecondsThenRelease dogRound
               = render (Frame (Some openHand)) s (onResults (Some openHand) s)"
    unfolding tenSecondsThenRelease_def fold_append o_apply ticks by (simp add: step_def)
  have d: "difficulty dogRound = MEDIUM \<and> timeLeft dogRound = 30 \<and> closureTimeLeft dogRound = 30 \<and>
           score dogRound = 0"
    by (simp add: dogRound_def initialState_def)
  have t20: "timeLeft (fold step (replicate 10 TimerTick) dogRound) = 20"
    unfolding ticks by (simp add: s_def)
  have c: "\<lfloor>real (length ''DOG'') * 10 * multiplier MEDIUM\<rfloor> + \<lfloor>real_of_int 20 * multiplier MEDIUM\<rfloor> = 75"
    by simp
  have tw: "trayWord (render e b a) = trayWord a" for e b a
    by (simp add: render_def installEffect_def)
  show ?thesis
    unfolding run using d t20 res c by (simp add: tw perfectMessagePoints_def)
qed


subsection \<open>Case of the tray word\<close>

text \<open>
  Tiles are made from the letters \<^verbatim>\<open>A\<close> to \<^verbatim>\<open>Z\<close> and from the upper-cased
  word, and the words of \<^verbatim>\<open>WORD_CATEGORIES\<close> are in upper case. So in every state
  that a session reaches the tile characters and the target are in upper case, and on
  such states the \<^verbatim>\<open>===\<close> of the evaluator and a comparison that ignores case
  agree.
\<close>

lemma toUpperCaseChar_idem [simp]: "toUpperCaseChar (toUpperCaseChar c) = toUpperCaseChar c"
proof -
  define n where "n = (of_char c :: nat)"
  have up: "toUpperCaseChar c = (if 97 \<le> n \<and> n \<le> 122 then char_of (n - 32) else c)"
    by (simp add: toUpperCaseChar_def n_def Let_def)
  show ?thesis
  proof (cases "97 \<le> n \<and> n \<le> 122")
    case True
    then have "n - 32 < 256"
      by arith
    then have "(n - 32) mod 256 = n - 32"
      by (rule mod_less)
    then have "(of_char (char_of (n - 32)) :: nat) = n - 32"
      by simp
    moreover have "\<not> (97 \<le> n - 32 \<and> n - 32 \<le> 122)"
      using True by arith
    ultimately have "toUpperCaseChar (char_of (n - 32)) = char_of (n - 32)"
      unfolding toUpperCaseChar_def Let_def by auto
    then show ?thesis
      using True by (auto simp add: up)
  next
    case False
    then show ?thesis
      by (auto simp add: up)
  qed
qed












lemma dragController_word [simp]: "currentWord (dragController hp p s) = currentWord s"
  by (simp add: dragController_def)

lemma onResults_word [simp]: "currentWord (onResults results s) = currentWord s"
proof -
  obtain hp p s2 where "onResults results s = settle (dragController hp p s2)"
    "currentWord s2 = currentWord s"
    using onResults_shape [of results s] by blast
  then show ?thesis by simp
qed

lemma onResultsSimple_word [simp]: "currentWord (onResultsSimple results s) = currentWord s"
proof -
  obtain hp p where "onResultsSimple results s = settle (dragController hp p s)"
    using onResultsSimple_shape [of results s] by blast
  then show ?thesis by simp
qed

lemma nextWord_word [simp]: "currentWord (nextWord w rnd s) = w"
  by (simp add: nextWord_def startTimer_def)







lemma upperCaseState_render [simp]: "upperCaseState (render e before after) = upperCaseState after"
  by (simp add: upperCaseState_def)









end
